theory Spec2Isabelle
  imports Main "HOL-Library.AList" "HOL-Library.Sublist" "HOL-Library.Word"
begin

section \<open>Python values, strings and exceptions\<close>

text \<open>
  A Python \<^verbatim>\<open>str\<close> is a sequence of Unicode code points; it is modelled as the list
  of these code points, so that \<^verbatim>\<open>len\<close>, slicing and \<^verbatim>\<open>strip\<close> count what Python
  counts. \<open>py\<close> turns an ASCII literal into such a string.
\<close>

type_synonym pystr = "nat list"

definition py :: "string \<Rightarrow> pystr" where
  "py s = map of_char s"

text \<open>
  The values that \<^verbatim>\<open>json.loads\<close> and the service clients hand to \<^verbatim>\<open>app.py\<close>.
  A \<^verbatim>\<open>dict\<close> keeps insertion order and has string keys; a \<^verbatim>\<open>float\<close> is the bit
  pattern of its IEEE double (no arithmetic is done on it).
\<close>

datatype pyval =
    PyNone
  | PyBool bool
  | PyInt int
  | PyFloat "64 word"
  | PyStr pystr
  | PyList "pyval list"
  | PyDict "(pystr \<times> pyval) list"

text \<open>
  Exceptions (all subclasses of \<^verbatim>\<open>Exception\<close>). \<open>KeyError\<close> carries the missing
  key, \<open>Raised\<close> is an exception coming out of a library or a service call, and the
  others carry their message.
\<close>

datatype exn =
    KeyError pystr
  | TypeError pystr
  | AttributeError pystr
  | IndexError pystr
  | Raised pystr

text \<open>\<^verbatim>\<open>str(e)\<close>; for a \<^verbatim>\<open>KeyError\<close> it is the \<^verbatim>\<open>repr\<close> of the key.\<close>

fun exn_str :: "exn \<Rightarrow> pystr" where
  "exn_str (KeyError k) = py [CHR 0x27] @ k @ py [CHR 0x27]"
| "exn_str (TypeError m) = m"
| "exn_str (AttributeError m) = m"
| "exn_str (IndexError m) = m"
| "exn_str (Raised m) = m"

fun type_name :: "pyval \<Rightarrow> pystr" where
  "type_name PyNone = py ''NoneType''"
| "type_name (PyBool b) = py ''bool''"
| "type_name (PyInt i) = py ''int''"
| "type_name (PyFloat f) = py ''float''"
| "type_name (PyStr s) = py ''str''"
| "type_name (PyList xs) = py ''list''"
| "type_name (PyDict kvs) = py ''dict''"

subsection \<open>String methods\<close>

text \<open>The code points for which \<^verbatim>\<open>str.isspace\<close> holds; \<^verbatim>\<open>str.strip()\<close> removes them.\<close>

definition is_space :: "nat \<Rightarrow> bool" where
  "is_space c \<longleftrightarrow>
     (9 \<le> c \<and> c \<le> 13) \<or> (28 \<le> c \<and> c \<le> 32) \<or> c = 133 \<or> c = 160 \<or> c = 5760 \<or>
     (8192 \<le> c \<and> c \<le> 8202) \<or> c = 8232 \<or> c = 8233 \<or> c = 8239 \<or> c = 8287 \<or> c = 12288"

definition strip :: "pystr \<Rightarrow> pystr" where
  "strip s = rev (dropWhile is_space (rev (dropWhile is_space s)))"

definition startswith :: "pystr \<Rightarrow> pystr \<Rightarrow> bool" where
  "startswith s p \<longleftrightarrow> take (length p) s = p"

text \<open>
  \<^verbatim>\<open>s.split(sep)\<close>: the pieces between the non-overlapping occurrences of \<open>sep\<close>,
  found from the left. Python raises \<^verbatim>\<open>ValueError\<close> on an empty separator; the only
  separator \<^verbatim>\<open>app.py\<close> passes is the literal of three backquotes, and with an empty
  one the model makes no cut.
\<close>

function split :: "pystr \<Rightarrow> pystr \<Rightarrow> pystr list" where
  "split sep [] = [[]]"
| "split sep (c # cs) =
     (if sep \<noteq> [] \<and> startswith (c # cs) sep
      then [] # split sep (drop (length sep) (c # cs))
      else (case split sep cs of [] \<Rightarrow> [[c]] | w # ws \<Rightarrow> (c # w) # ws))"
  by pat_completeness auto
termination
  by (relation "measure (\<lambda>(sep, s). length s)") auto

text \<open>\<^verbatim>\<open>sep.join(parts)\<close>.\<close>

fun join :: "pystr \<Rightarrow> pystr list \<Rightarrow> pystr" where
  "join sep [] = []"
| "join sep [p] = p"
| "join sep (p # q # ps) = p @ sep @ join sep (q # ps)"

text \<open>\<^verbatim>\<open>xs[i]\<close> for a non-negative index.\<close>

definition index :: "'a list \<Rightarrow> nat \<Rightarrow> exn + 'a" where
  "index xs i = (if i < length xs then Inr (xs ! i) else Inl (IndexError (py ''list index out of range'')))"

section \<open>Removing markdown code fences\<close>

definition fence :: pystr where
  "fence = py ''```''"

text \<open>
  The block under the comment \<^verbatim>\<open># Remove markdown code blocks if present\<close>, the same
  in \<^verbatim>\<open>extract_claims\<close> (lines 55 to 58) and in \<^verbatim>\<open>verify_claim\<close> (lines 112 to 115):
  \<^verbatim>\<open>
  if s.startswith("```"):
      s = s.split("```")[1]
      if s.startswith("json"):
          s = s[4:]
  \<close>
\<close>

definition drop_json_tag :: "pystr \<Rightarrow> pystr" where
  "drop_json_tag t = (if startswith t (py ''json'') then drop 4 t else t)"

definition remove_fence :: "pystr \<Rightarrow> exn + pystr" where
  "remove_fence s =
     (if startswith s fence
      then (case index (split fence s) 1 of
              Inl e \<Rightarrow> Inl e
            | Inr t \<Rightarrow> Inr (drop_json_tag t))
      else Inr s)"

text \<open>
  Lines 53 to 59 (and 110 to 116): the content is trimmed, the fence is removed, and the
  result is trimmed again.
\<close>

definition clean_response :: "pystr \<Rightarrow> exn + pystr" where
  "clean_response content =
     (case remove_fence (strip content) of
        Inl e \<Rightarrow> Inl e
      | Inr s \<Rightarrow> Inr (strip s))"

text \<open>Lines 53 to 61 (and 110 to 118): the cleaned content goes to \<^verbatim>\<open>json.loads\<close>.\<close>

definition parse_response :: "(pystr \<Rightarrow> exn + pyval) \<Rightarrow> pystr \<Rightarrow> exn + pyval" where
  "parse_response loads content =
     (case clean_response content of
        Inl e \<Rightarrow> Inl e
      | Inr s \<Rightarrow> loads s)"

section \<open>Operations on Python values\<close>

definition quoted :: "pystr \<Rightarrow> pystr" where
  "quoted s = py [CHR 0x27] @ s @ py [CHR 0x27]"

definition not_str_index :: pystr where
  "not_str_index = py ''list indices must be integers or slices, not str''"

text \<open>\<^verbatim>\<open>v[k]\<close> with a string key \<open>k\<close>.\<close>

fun getitem :: "pyval \<Rightarrow> pystr \<Rightarrow> exn + pyval" where
  "getitem (PyDict kvs) k = (case map_of kvs k of None \<Rightarrow> Inl (KeyError k) | Some v \<Rightarrow> Inr v)"
| "getitem (PyList xs) k = Inl (TypeError not_str_index)"
| "getitem (PyStr s) k =
     Inl (TypeError (py ''string indices must be integers, not '' @ quoted (py ''str'')))"
| "getitem v k = Inl (TypeError (quoted (type_name v) @ py '' object is not subscriptable''))"

text \<open>\<^verbatim>\<open>v[k] = w\<close> with a string key: a dict is updated in place or extended at its end.\<close>

fun setitem :: "pyval \<Rightarrow> pystr \<Rightarrow> pyval \<Rightarrow> exn + pyval" where
  "setitem (PyDict kvs) k w = Inr (PyDict (AList.update k w kvs))"
| "setitem (PyList xs) k w = Inl (TypeError not_str_index)"
| "setitem v k w =
     Inl (TypeError (quoted (type_name v) @ py '' object does not support item assignment''))"

text \<open>\<^verbatim>\<open>v.get(k, d)\<close>.\<close>

fun get_default :: "pyval \<Rightarrow> pystr \<Rightarrow> pyval \<Rightarrow> exn + pyval" where
  "get_default (PyDict kvs) k d = Inr (case map_of kvs k of None \<Rightarrow> d | Some v \<Rightarrow> v)"
| "get_default v k d =
     Inl (AttributeError (quoted (type_name v) @ py '' object has no attribute '' @ quoted (py ''get'')))"

text \<open>
  The elements a \<^verbatim>\<open>for\<close> visits: those of a list, the keys of a dict, the characters
  of a string; anything else is not iterable.
\<close>

fun iterate :: "pyval \<Rightarrow> exn + pyval list" where
  "iterate (PyList xs) = Inr xs"
| "iterate (PyDict kvs) = Inr (map (\<lambda>kv. PyStr (fst kv)) kvs)"
| "iterate (PyStr s) = Inr (map (\<lambda>c. PyStr [c]) s)"
| "iterate v = Inl (TypeError (quoted (type_name v) @ py '' object is not iterable''))"

text \<open>A list comprehension whose element expression may raise: the first exception ends it.\<close>

fun map_exn :: "('a \<Rightarrow> exn + 'b) \<Rightarrow> 'a list \<Rightarrow> exn + 'b list" where
  "map_exn f [] = Inr []"
| "map_exn f (x # xs) =
     (case f x of
        Inl e \<Rightarrow> Inl e
      | Inr y \<Rightarrow> (case map_exn f xs of Inl e \<Rightarrow> Inl e | Inr ys \<Rightarrow> Inr (y # ys)))"

section \<open>The services\<close>

text \<open>
  What \<^verbatim>\<open>app.py\<close> calls but does not define. \<open>'x\<close> is the state of the outside world,
  threaded through every call, so that a service may answer the same request differently
  each time.
  \<^item> \<open>chat_extract t\<close>: the chat completion of \<^verbatim>\<open>extract_claims\<close>, whose prompt is
    fixed text around \<open>t\<close>; the outcome is an exception or
    \<^verbatim>\<open>response.choices[0].message.content\<close>, a string or \<^verbatim>\<open>None\<close>.
  \<^item> \<open>chat_verify claim context\<close>: the chat completion of \<^verbatim>\<open>verify_claim\<close>, whose
    prompt is fixed text around the claim and the context.
  \<^item> \<open>tavily_search q\<close>: \<^verbatim>\<open>tavily_client.search(query=q, max_results=3)\<close>.
  \<^item> \<open>json_loads\<close>: \<^verbatim>\<open>json.loads\<close>.
  \<^item> \<open>format_value\<close>: what an f-string writes for a value that is not a string.
  \<^item> \<open>load_pdf path\<close>: \<^verbatim>\<open>PyPDFLoader(path).load()\<close>, as the \<^verbatim>\<open>page_content\<close> of
    the pages.
  \<^item> \<open>show_results\<close>: lines 183 to 209, which put the counts and the results on the
    page and may raise.
  \<^item> \<open>make_temp\<close>, \<open>write_upload\<close>: the name \<^verbatim>\<open>NamedTemporaryFile\<close> chooses, and
    the writing of the uploaded bytes to it.
\<close>

record 'x env =
  chat_extract :: "pystr \<Rightarrow> 'x \<Rightarrow> (exn + pystr option) \<times> 'x"
  chat_verify :: "pyval \<Rightarrow> pystr \<Rightarrow> 'x \<Rightarrow> (exn + pystr option) \<times> 'x"
  tavily_search :: "pyval \<Rightarrow> 'x \<Rightarrow> (exn + pyval) \<times> 'x"
  json_loads :: "pystr \<Rightarrow> exn + pyval"
  format_value :: "pyval \<Rightarrow> pystr"
  load_pdf :: "pystr \<Rightarrow> 'x \<Rightarrow> (exn + pystr list) \<times> 'x"
  show_results :: "pyval list \<Rightarrow> 'x \<Rightarrow> exn option \<times> 'x"
  make_temp :: "'x \<Rightarrow> pystr \<times> 'x"
  write_upload :: "pystr \<Rightarrow> 'x \<Rightarrow> exn option \<times> 'x"

text \<open>\<^verbatim>\<open>content.strip()\<close> and what follows it, for a content that may be \<^verbatim>\<open>None\<close>.\<close>

definition parse_reply :: "(pystr \<Rightarrow> exn + pyval) \<Rightarrow> pystr option \<Rightarrow> exn + pyval" where
  "parse_reply loads content =
     (case content of
        None \<Rightarrow>
          Inl (AttributeError
            (quoted (py ''NoneType'') @ py '' object has no attribute '' @ quoted (py ''strip'')))
      | Some c \<Rightarrow> parse_response loads c)"

section \<open>\<^verbatim>\<open>extract_claims\<close>\<close>

text \<open>Line 62: \<^verbatim>\<open>[c['claim'] for c in claims_data]\<close>.\<close>

definition claims_of :: "pyval \<Rightarrow> exn + pyval list" where
  "claims_of claims_data =
     (case iterate claims_data of
        Inl e \<Rightarrow> Inl e
      | Inr cs \<Rightarrow> map_exn (\<lambda>c. getitem c (py ''claim'')) cs)"

text \<open>The body of the \<^verbatim>\<open>try\<close>, lines 43 to 62.\<close>

definition extract_claims_try :: "'x env \<Rightarrow> pystr \<Rightarrow> 'x \<Rightarrow> (exn + pyval list) \<times> 'x" where
  "extract_claims_try env text x =
     (case chat_extract env (take 8000 text) x of
        (Inl e, x') \<Rightarrow> (Inl e, x')
      | (Inr content, x') \<Rightarrow>
          (case parse_reply (json_loads env) content of
             Inl e \<Rightarrow> (Inl e, x')
           | Inr claims_data \<Rightarrow> (claims_of claims_data, x')))"

text \<open>
  \<^verbatim>\<open>extract_claims\<close>: the claims, the messages given to \<^verbatim>\<open>st.error\<close>, and the world
  after the call.
\<close>

definition extract_claims :: "'x env \<Rightarrow> pystr \<Rightarrow> 'x \<Rightarrow> (pyval list \<times> pystr list) \<times> 'x" where
  "extract_claims env text x =
     (case extract_claims_try env text x of
        (Inl e, x') \<Rightarrow> (([], [py ''Error extracting claims: '' @ exn_str e]), x')
      | (Inr claims, x') \<Rightarrow> ((claims, []), x'))"

section \<open>\<^verbatim>\<open>verify_claim\<close>\<close>

definition fmt :: "'x env \<Rightarrow> pyval \<Rightarrow> pystr" where
  "fmt env v = (case v of PyStr s \<Rightarrow> s | _ \<Rightarrow> format_value env v)"

text \<open>Line 79: \<^verbatim>\<open>f"Source: {r['url']}\n{r['content']}"\<close>.\<close>

definition source_block :: "'x env \<Rightarrow> pyval \<Rightarrow> exn + pystr" where
  "source_block env r =
     (case getitem r (py ''url'') of
        Inl e \<Rightarrow> Inl e
      | Inr u \<Rightarrow>
          (case getitem r (py ''content'') of
             Inl e \<Rightarrow> Inl e
           | Inr c \<Rightarrow> Inr (py ''Source: '' @ fmt env u @ [10] @ fmt env c)))"

text \<open>Lines 78 to 81: the blocks of \<^verbatim>\<open>search_results.get('results', [])\<close>, joined.\<close>

definition build_context :: "'x env \<Rightarrow> pyval \<Rightarrow> exn + pystr" where
  "build_context env search_results =
     (case get_default search_results (py ''results'') (PyList []) of
        Inl e \<Rightarrow> Inl e
      | Inr rs \<Rightarrow>
          (case iterate rs of
             Inl e \<Rightarrow> Inl e
           | Inr items \<Rightarrow>
               (case map_exn (source_block env) items of
                  Inl e \<Rightarrow> Inl e
                | Inr blocks \<Rightarrow> Inr (join [10, 10] blocks))))"

text \<open>Lines 110 to 121: the reply is parsed and the claim is stored in the result.\<close>

definition verdict_of_reply :: "'x env \<Rightarrow> pyval \<Rightarrow> pystr option \<Rightarrow> exn + pyval" where
  "verdict_of_reply env claim content =
     (case parse_reply (json_loads env) content of
        Inl e \<Rightarrow> Inl e
      | Inr result \<Rightarrow> setitem result (py ''claim'') claim)"

text \<open>The body of the \<^verbatim>\<open>try\<close>, lines 71 to 121.\<close>

definition verify_claim_try :: "'x env \<Rightarrow> pyval \<Rightarrow> 'x \<Rightarrow> (exn + pyval) \<times> 'x" where
  "verify_claim_try env claim x =
     (case tavily_search env claim x of
        (Inl e, x1) \<Rightarrow> (Inl e, x1)
      | (Inr search_results, x1) \<Rightarrow>
          (case build_context env search_results of
             Inl e \<Rightarrow> (Inl e, x1)
           | Inr context \<Rightarrow>
               (case chat_verify env claim context x1 of
                  (Inl e, x2) \<Rightarrow> (Inl e, x2)
                | (Inr content, x2) \<Rightarrow> (verdict_of_reply env claim content, x2))))"

text \<open>The dict of the \<^verbatim>\<open>except\<close> branch, lines 123 to 128.\<close>

definition error_verdict :: "pyval \<Rightarrow> exn \<Rightarrow> pyval" where
  "error_verdict claim e =
     PyDict [(py ''claim'', claim),
             (py ''status'', PyStr (py ''Error'')),
             (py ''explanation'', PyStr (py ''Could not verify: '' @ exn_str e)),
             (py ''sources'', PyList [])]"

definition verify_claim :: "'x env \<Rightarrow> pyval \<Rightarrow> 'x \<Rightarrow> pyval \<times> 'x" where
  "verify_claim env claim x =
     (case verify_claim_try env claim x of
        (Inl e, x') \<Rightarrow> (error_verdict claim e, x')
      | (Inr result, x') \<Rightarrow> (result, x'))"

section \<open>The run over one uploaded document\<close>

text \<open>
  Lines 163 to 171: \<^verbatim>\<open>results\<close> starts empty and gets one verification appended per
  claim. The progress widgets only receive values.
\<close>

fun verify_loop :: "'x env \<Rightarrow> pyval list \<Rightarrow> pyval list \<Rightarrow> 'x \<Rightarrow> pyval list \<times> 'x" where
  "verify_loop env [] results x = (results, x)"
| "verify_loop env (claim # claims) results x =
     (case verify_claim env claim x of
        (verification, x') \<Rightarrow> verify_loop env claims (results @ [verification]) x')"

text \<open>\<^verbatim>\<open>sum(1 for r in results if r['status'] == status)\<close>.\<close>

fun count_status :: "pystr \<Rightarrow> pyval list \<Rightarrow> exn + nat" where
  "count_status status [] = Inr 0"
| "count_status status (r # rs) =
     (case getitem r (py ''status'') of
        Inl e \<Rightarrow> Inl e
      | Inr v \<Rightarrow>
          (case count_status status rs of
             Inl e \<Rightarrow> Inl e
           | Inr n \<Rightarrow> Inr ((if v = PyStr status then 1 else 0) + n)))"

text \<open>Lines 179 to 181: \<^verbatim>\<open>verified_count\<close>, \<^verbatim>\<open>inaccurate_count\<close>, \<^verbatim>\<open>false_count\<close>.\<close>

definition summary_counts :: "pyval list \<Rightarrow> exn + nat \<times> nat \<times> nat" where
  "summary_counts results =
     (case count_status (py ''Verified'') results of
        Inl e \<Rightarrow> Inl e
      | Inr verified_count \<Rightarrow>
          (case count_status (py ''Inaccurate'') results of
             Inl e \<Rightarrow> Inl e
           | Inr inaccurate_count \<Rightarrow>
               (case count_status (py ''False'') results of
                  Inl e \<Rightarrow> Inl e
                | Inr false_count \<Rightarrow> Inr (verified_count, inaccurate_count, false_count))))"

text \<open>
  The source counts no fourth group. The count of the verdicts with status \<^verbatim>\<open>Error\<close>
  that the specification names is written the way the source counts the other three.
\<close>

definition spec_error_count :: "pyval list \<Rightarrow> exn + nat" where
  "spec_error_count results = count_status (py ''Error'') results"

datatype outcome =
    NoClaims
  | Checked "pyval list" nat nat nat

text \<open>
  Lines 155 to 211, from the text of the document on: the outcome or the exception that
  leaves the block, the messages given to \<^verbatim>\<open>st.error\<close>, and the world.
\<close>

definition check_text :: "'x env \<Rightarrow> pystr \<Rightarrow> 'x \<Rightarrow> (exn + outcome) \<times> pystr list \<times> 'x" where
  "check_text env text x =
     (case extract_claims env text x of
        ((claims, errs), x1) \<Rightarrow>
          if claims \<noteq> [] then
            (case verify_loop env claims [] x1 of
               (results, x2) \<Rightarrow>
                 (case summary_counts results of
                    Inl e \<Rightarrow> (Inl e, errs, x2)
                  | Inr (verified_count, inaccurate_count, false_count) \<Rightarrow>
                      (case show_results env results x2 of
                         (Some e, x3) \<Rightarrow> (Inl e, errs, x3)
                       | (None, x3) \<Rightarrow>
                           (Inr (Checked results verified_count inaccurate_count false_count),
                            errs, x3))))
          else (Inr NoClaims, errs, x1))"

text \<open>
  How a run ends: the script is left by an exception, the \<^verbatim>\<open>except\<close> branch of line
  213 showed a message, or the block finished.
\<close>

datatype run_end =
    Aborted exn
  | Failed pystr
  | Finished outcome

record 'x run_result =
  ending :: run_end
  st_errors :: "pystr list"
  files :: "pystr set"
  world :: 'x

text \<open>
  Lines 145 to 218, the \<^verbatim>\<open>try\<close> statement. The file system is the set of the paths
  that exist: \<^verbatim>\<open>os.path.exists\<close> is membership and \<^verbatim>\<open>os.unlink\<close> removes the path.
\<close>

definition process_pdf :: "'x env \<Rightarrow> pystr \<Rightarrow> pystr set \<Rightarrow> 'x \<Rightarrow> 'x run_result" where
  "process_pdf env pdf_path fs x =
     (let (r, errs, x') =
            (case load_pdf env pdf_path x of
               (Inl e, x1) \<Rightarrow> (Inl e, [], x1)
             | (Inr pages, x1) \<Rightarrow> check_text env (join [32] pages) x1);
          fs' = (if pdf_path \<in> fs then fs - {pdf_path} else fs)
      in (case r of
            Inl e \<Rightarrow>
              \<lparr>ending = Failed (py ''Error processing PDF: '' @ exn_str e),
               st_errors = errs @ [py ''Error processing PDF: '' @ exn_str e],
               files = fs', world = x'\<rparr>
          | Inr out \<Rightarrow> \<lparr>ending = Finished out, st_errors = errs, files = fs', world = x'\<rparr>))"

text \<open>
  Lines 138 to 218: the upload is saved in a temporary file that is kept when it is
  closed (\<^verbatim>\<open>delete=False\<close>), then processed. An exception while the bytes are written
  leaves the script before the \<^verbatim>\<open>try\<close> statement is reached.
\<close>

definition run_upload :: "'x env \<Rightarrow> pystr set \<Rightarrow> 'x \<Rightarrow> 'x run_result" where
  "run_upload env fs x =
     (case make_temp env x of
        (pdf_path, x1) \<Rightarrow>
          (case write_upload env pdf_path x1 of
             (Some e, x2) \<Rightarrow>
               \<lparr>ending = Aborted e, st_errors = [], files = insert pdf_path fs, world = x2\<rparr>
           | (None, x2) \<Rightarrow> process_pdf env pdf_path (insert pdf_path fs) x2))"

section \<open>Properties named by the specification\<close>

text \<open>The four values the specification allows for the status of a verdict.\<close>

definition known_status :: "pyval \<Rightarrow> bool" where
  "known_status v \<longleftrightarrow>
     v = PyStr (py ''Verified'') \<or> v = PyStr (py ''Inaccurate'') \<or>
     v = PyStr (py ''False'') \<or> v = PyStr (py ''Error'')"

text \<open>A verdict that the source counts in none of its three groups.\<close>

definition uncounted :: "pyval \<Rightarrow> bool" where
  "uncounted r \<longleftrightarrow>
     getitem r (py ''status'') \<noteq> Inr (PyStr (py ''Verified'')) \<and>
     getitem r (py ''status'') \<noteq> Inr (PyStr (py ''Inaccurate'')) \<and>
     getitem r (py ''status'') \<noteq> Inr (PyStr (py ''False''))"


text \<open>An element of the parsed array that is an object with a \<^verbatim>\<open>claim\<close> key.\<close>

fun is_claim_object :: "pyval \<Rightarrow> bool" where
  "is_claim_object (PyDict kvs) = (map_of kvs (py ''claim'') \<noteq> None)"
| "is_claim_object v = False"

text \<open>\<^verbatim>\<open>sep in s\<close>: the string has an occurrence of \<open>sep\<close>.\<close>

fun contains :: "pystr \<Rightarrow> pystr \<Rightarrow> bool" where
  "contains [] sep = (sep = [])"
| "contains (c # cs) sep = (startswith (c # cs) sep \<or> contains cs sep)"

section \<open>Test doubles\<close>

text \<open>
  Some JSON documents with the value \<^verbatim>\<open>json.loads\<close> returns for each, and a decoder
  that knows only these documents and rejects every other string the way
  \<^verbatim>\<open>json.loads\<close> rejects \<^verbatim>\<open>not json\<close>.
\<close>

definition doc_one_claim :: pystr where
  \<open>doc_one_claim = py ''[{"claim": "Revenue grew 40% in 2023"}]''\<close>

definition doc_blank_claim :: pystr where
  \<open>doc_blank_claim = py ''[{"claim": " "}]''\<close>

definition doc_mixed :: pystr where
  \<open>doc_mixed = py ''[{"claim": "a"}, {"text": "b"}]''\<close>

definition doc_verified :: pystr where
  \<open>doc_verified = py ''{"status": "Verified", "explanation": "x", "sources": []}''\<close>

definition doc_other_status :: pystr where
  \<open>doc_other_status = py ''{"status": "Unverified", "explanation": "x", "sources": []}''\<close>

definition doc_no_status :: pystr where
  \<open>doc_no_status = py ''{"explanation": "x"}''\<close>

definition doc_array :: pystr where
  \<open>doc_array = py ''[]''\<close>

text \<open>
  A payload with the fence inside a string, and what is left of it before that fence.
\<close>

definition doc_fence_inside :: pystr where
  \<open>doc_fence_inside = py ''{"a": "```"}''\<close>

definition doc_fence_cut :: pystr where
  \<open>doc_fence_cut = py ''{"a": "''\<close>

definition json_samples :: "(pystr \<times> pyval) list" where
  "json_samples =
     [(doc_one_claim, PyList [PyDict [(py ''claim'', PyStr (py ''Revenue grew 40% in 2023''))]]),
      (doc_blank_claim, PyList [PyDict [(py ''claim'', PyStr (py '' ''))]]),
      (doc_mixed,
       PyList [PyDict [(py ''claim'', PyStr (py ''a''))], PyDict [(py ''text'', PyStr (py ''b''))]]),
      (doc_verified,
       PyDict [(py ''status'', PyStr (py ''Verified'')), (py ''explanation'', PyStr (py ''x'')),
               (py ''sources'', PyList [])]),
      (doc_other_status,
       PyDict [(py ''status'', PyStr (py ''Unverified'')), (py ''explanation'', PyStr (py ''x'')),
               (py ''sources'', PyList [])]),
      (doc_no_status, PyDict [(py ''explanation'', PyStr (py ''x''))]),
      (doc_array, PyList [])]"

definition stub_loads :: "pystr \<Rightarrow> exn + pyval" where
  "stub_loads s =
     (case map_of json_samples s of
        None \<Rightarrow> Inl (Raised (py ''Expecting value: line 1 column 1 (char 0)''))
      | Some v \<Rightarrow> Inr v)"

text \<open>
  Services with fixed answers: the reply to the extraction request, the reply to every
  classification request, and the answer of the search. The upload is saved without
  error and has one page.
\<close>

definition stub_env ::
  "(exn + pystr option) \<Rightarrow> (exn + pystr option) \<Rightarrow> (exn + pyval) \<Rightarrow> unit env" where
  "stub_env extraction classification found =
     \<lparr>chat_extract = (\<lambda>t x. (extraction, x)),
      chat_verify = (\<lambda>claim context x. (classification, x)),
      tavily_search = (\<lambda>q x. (found, x)),
      json_loads = stub_loads,
      format_value = (\<lambda>v. []),
      load_pdf = (\<lambda>path x. (Inr [py ''Revenue grew 40% in 2023''], x)),
      show_results = (\<lambda>results x. (None, x)),
      make_temp = (\<lambda>x. (py ''/tmp/tmpk3v9.pdf'', x)),
      write_upload = (\<lambda>path x. (None, x))\<rparr>"

definition no_results :: pyval where
  "no_results = PyDict [(py ''query'', PyStr (py ''a'')), (py ''results'', PyList [])]"

text \<open>
  The runs used as examples: a document with one claim that is classified as verified; the
  search failing; replies that are not JSON; the chat service failing; a blank claim; an
  array with an element without claim; a status outside the four; a reply without status;
  a document that cannot be read.
\<close>

definition env_revenue :: "unit env" where
  "env_revenue = stub_env (Inr (Some doc_one_claim)) (Inr (Some doc_verified)) (Inr no_results)"

definition env_search_down :: "unit env" where
  "env_search_down =
     stub_env (Inr (Some doc_one_claim)) (Inr (Some doc_verified))
       (Inl (Raised (py ''Connection refused'')))"

definition env_garbled :: "unit env" where
  "env_garbled =
     stub_env (Inr (Some (py ''not json''))) (Inr (Some (py ''not json''))) (Inr no_results)"

definition env_chat_down :: "unit env" where
  "env_chat_down =
     stub_env (Inl (Raised (py ''Request timed out.''))) (Inl (Raised (py ''Request timed out.'')))
       (Inr no_results)"


definition env_mixed :: "unit env" where
  "env_mixed = stub_env (Inr (Some doc_mixed)) (Inr (Some doc_verified)) (Inr no_results)"

definition env_other_status :: "unit env" where
  "env_other_status =
     stub_env (Inr (Some doc_one_claim)) (Inr (Some doc_other_status)) (Inr no_results)"

definition env_no_status :: "unit env" where
  "env_no_status =
     stub_env (Inr (Some doc_one_claim)) (Inr (Some doc_no_status)) (Inr no_results)"

definition env_bad_pdf :: "unit env" where
  "env_bad_pdf = env_revenue\<lparr>load_pdf := (\<lambda>path x. (Inl (Raised (py ''EOF marker not found'')), x))\<rparr>"

text \<open>A run in which the bytes of the upload cannot be written.\<close>

definition env_disk_full :: "unit env" where
  "env_disk_full =
     env_revenue\<lparr>write_upload :=
       (\<lambda>path x. (Some (Raised (py ''[Errno 28] No space left on device'')), x))\<rparr>"

section \<open>The string methods\<close>

lemma dropWhile_keep: "xs \<noteq> [] \<Longrightarrow> \<not> P (hd xs) \<Longrightarrow> dropWhile P xs = xs"
  by (cases xs) auto

lemma rev_drop_rev: "rev (drop i (rev t)) = take (length t - i) t"
  by (simp add: rev_drop)

lemma strip_shape:
  "strip s = [] \<or> (\<not> is_space (hd (strip s)) \<and> \<not> is_space (last (strip s)))"
proof (cases "strip s = []")
  case True
  then show ?thesis by simp
next
  case False
  let ?u = "dropWhile is_space s"
  let ?v = "dropWhile is_space (rev ?u)"
  have sv: "strip s = rev ?v" by (simp add: strip_def)
  with False have vne: "?v \<noteq> []" by simp
  then have hv: "\<not> is_space (hd ?v)" by (metis hd_dropWhile)
  have une: "?u \<noteq> []"
  proof
    assume "?u = []"
    then have "?v = []" by (simp only: rev.simps dropWhile.simps)
    with vne show False by simp
  qed
  then have hu: "\<not> is_space (hd ?u)" by (metis hd_dropWhile)
  have "last ?v = last (rev ?u)"
    by (metis vne last_appendR takeWhile_dropWhile_id)
  then have lv: "last ?v = hd ?u" using une by (simp add: last_rev)
  have "hd (strip s) = last ?v" using vne sv by (simp add: hd_rev)
  moreover have "last (strip s) = hd ?v" using vne sv by (simp add: last_rev)
  ultimately show ?thesis using hv hu lv by simp
qed

lemma strip_id:
  assumes "s = [] \<or> (\<not> is_space (hd s) \<and> \<not> is_space (last s))"
  shows "strip s = s"
proof (cases s)
  case Nil
  then show ?thesis by (simp add: strip_def)
next
  case (Cons a as)
  with assms have h: "\<not> is_space (hd s)" and l: "\<not> is_space (last s)" by auto
  from h Cons have "dropWhile is_space s = s" by simp
  moreover have "dropWhile is_space (rev s) = rev s"
  proof -
    have "rev s \<noteq> []" using Cons by simp
    moreover have "hd (rev s) = last s" using Cons by (simp add: hd_rev)
    ultimately show ?thesis using l by (simp add: dropWhile_keep)
  qed
  ultimately show ?thesis by (simp add: strip_def)
qed

lemma strip_strip: "strip (strip s) = strip s"
  using strip_shape strip_id by blast

lemma strip_sub: "\<exists>j k. strip s = take k (drop j s)"
proof -
  have a: "\<And>u. \<exists>j. dropWhile is_space u = drop j u"
    by (metis dropWhile_eq_drop)
  obtain j where j: "dropWhile is_space s = drop j s" using a by blast
  obtain i where i: "dropWhile is_space (rev (drop j s)) = drop i (rev (drop j s))"
    using a by blast
  have "strip s = rev (drop i (rev (drop j s)))" by (simp add: strip_def j i)
  also have "\<dots> = take (length (drop j s) - i) (drop j s)" by (rule rev_drop_rev)
  finally show ?thesis by blast
qed

lemma startswith_prefix: "startswith s p \<longleftrightarrow> prefix p s"
  by (metis startswith_def append_eq_conv_conj prefix_def append_take_drop_id)

lemma startswith_take: "startswith (take k u) sep \<Longrightarrow> startswith u sep"
  by (metis startswith_prefix prefix_order.trans take_is_prefix)

lemma split_ne: "split sep s \<noteq> []"
  by (induction sep s rule: split.induct) (auto split: list.splits)

lemma hd_split_prefix: "prefix (hd (split sep s)) s"
  by (induction sep s rule: split.induct) (auto split: list.splits simp: split_ne)

lemma hd_split_free: "sep \<noteq> [] \<Longrightarrow> \<not> startswith (drop i (hd (split sep s))) sep"
proof (induction sep s arbitrary: i rule: split.induct)
  case (1 sep)
  then show ?case by (simp add: startswith_def)
next
  case (2 sep c cs)
  show ?case
  proof (cases "startswith (c # cs) sep")
    case True
    with 2 show ?thesis by (simp add: startswith_def)
  next
    case False
    obtain w ws where w: "split sep cs = w # ws"
      using split_ne by (cases "split sep cs") auto
    have hd: "hd (split sep (c # cs)) = c # w" using False w by simp
    show ?thesis
    proof (cases i)
      case 0
      have "prefix w cs" using hd_split_prefix[of sep cs] w by simp
      then have pw: "prefix (c # w) (c # cs)" by simp
      have "\<not> prefix sep (c # w)"
      proof
        assume "prefix sep (c # w)"
        with pw have "prefix sep (c # cs)" by (metis prefix_order.trans)
        with False show False by (simp add: startswith_prefix)
      qed
      then show ?thesis using 0 hd by (simp add: startswith_prefix)
    next
      case (Suc n)
      then show ?thesis using 2(2)[OF _ "2.prems", of n] False w hd "2.prems" by simp
    qed
  qed
qed

lemma split_fenced:
  "sep \<noteq> [] \<Longrightarrow> startswith s sep \<Longrightarrow> split sep s = [] # split sep (drop (length sep) s)"
  by (cases s) (auto simp: startswith_def)

lemma hd_split_other:
  assumes "sep \<noteq> []" and "c \<noteq> hd sep"
  shows "hd (split sep (c # cs)) = c # hd (split sep cs)"
proof -
  from assms have "\<not> startswith (c # cs) sep"
    by (cases sep) (auto simp: startswith_def)
  then show ?thesis using split_ne[of sep cs] by (cases "split sep cs") auto
qed

section \<open>The removal of fences\<close>

lemma fence_eq: "fence = [96, 96, 96]"
  by (simp add: fence_def py_def)

lemma length_fence: "length fence = 3"
  by (simp add: fence_eq)

lemma fence_ne: "fence \<noteq> []"
  by (simp add: fence_eq)

lemma json_eq: "py ''json'' = [106, 115, 111, 110]"
  by (simp add: py_def)

lemma remove_fence_fenced:
  assumes "startswith s fence"
  shows "remove_fence s = Inr (drop_json_tag (hd (split fence (drop 3 s))))"
proof -
  have "split fence s = [] # split fence (drop 3 s)"
    using split_fenced[OF fence_ne assms] by (simp only: length_fence)
  moreover obtain w ws where "split fence (drop 3 s) = w # ws"
    using split_ne[of fence "drop 3 s"] by (cases "split fence (drop 3 s)") auto
  ultimately show ?thesis using assms by (simp add: remove_fence_def index_def)
qed

lemma remove_fence_plain: "\<not> startswith s fence \<Longrightarrow> remove_fence s = Inr s"
  by (simp add: remove_fence_def)

lemma drop_json_tag_free: "\<not> startswith (drop i (drop_json_tag (hd (split fence r)))) fence"
  using hd_split_free[OF fence_ne, of "i + 4" r] hd_split_free[OF fence_ne, of i r]
  by (auto simp: drop_json_tag_def add.commute)

lemma remove_fence_idem: "\<exists>t. remove_fence s = Inr t \<and> remove_fence t = Inr t"
proof (cases "startswith s fence")
  case True
  have "\<not> startswith (drop_json_tag (hd (split fence (drop 3 s)))) fence"
    using drop_json_tag_free[of 0] by simp
  then show ?thesis using remove_fence_fenced[OF True] remove_fence_plain by simp
next
  case False
  then show ?thesis by (simp add: remove_fence_plain)
qed

lemma clean_response_plain:
  "\<not> startswith (strip s) fence \<Longrightarrow> clean_response s = Inr (strip s)"
  by (simp add: clean_response_def remove_fence_plain strip_strip)

lemma clean_response_idem: "\<exists>t. clean_response s = Inr t \<and> clean_response t = Inr t"
proof (cases "startswith (strip s) fence")
  case False
  then show ?thesis by (simp add: clean_response_plain strip_strip)
next
  case True
  let ?w = "drop_json_tag (hd (split fence (drop 3 (strip s))))"
  have c: "clean_response s = Inr (strip ?w)"
    using remove_fence_fenced[OF True] by (simp add: clean_response_def)
  obtain j k where jk: "strip ?w = take k (drop j ?w)" using strip_sub by blast
  have "\<not> startswith (strip ?w) fence"
    using drop_json_tag_free[of j] startswith_take[of k "drop j ?w" fence] jk by auto
  then have "\<not> startswith (strip (strip ?w)) fence" by (simp add: strip_strip)
  then have "clean_response (strip ?w) = Inr (strip ?w)"
    using clean_response_plain[of "strip ?w"] by (simp add: strip_strip)
  with c show ?thesis by simp
qed

lemma clean_response_total: "\<exists>t. clean_response s = Inr t"
  using clean_response_idem by blast

lemma remove_fence_json:
  "remove_fence (fence @ py ''json'' @ [10] @ r) = Inr ([10] @ hd (split fence r))"
proof -
  have f: "fence \<noteq> []" "hd fence = 96" by (simp_all add: fence_eq)
  have s: "startswith (fence @ py ''json'' @ [10] @ r) fence" by (simp add: startswith_def)
  have "hd (split fence ([106, 115, 111, 110, 10] @ r)) =
        [106, 115, 111, 110, 10] @ hd (split fence r)"
    using f by (simp add: hd_split_other del: split.simps)
  then show ?thesis using remove_fence_fenced[OF s]
    by (simp add: fence_eq json_eq drop_json_tag_def startswith_def del: split.simps)
qed

lemma remove_fence_bare:
  "remove_fence (fence @ [10] @ r) = Inr ([10] @ hd (split fence r))"
proof -
  have f: "fence \<noteq> []" "hd fence = 96" by (simp_all add: fence_eq)
  have s: "startswith (fence @ [10] @ r) fence" by (simp add: startswith_def)
  have "hd (split fence ([10] @ r)) = [10] @ hd (split fence r)"
    using f by (simp add: hd_split_other del: split.simps)
  then show ?thesis using remove_fence_fenced[OF s]
    by (simp add: fence_eq json_eq drop_json_tag_def startswith_def del: split.simps)
qed

lemma strip_fenced: "strip (fence @ a @ fence) = fence @ a @ fence"
  by (rule strip_id) (simp add: fence_eq is_space_def)

lemma clean_response_fenced:
  "clean_response (fence @ py ''json'' @ [10] @ p @ [10] @ fence) =
   clean_response (fence @ [10] @ p @ [10] @ fence)"
proof -
  have a: "strip (fence @ (py ''json'' @ [10] @ p @ [10]) @ fence) =
           fence @ (py ''json'' @ [10] @ p @ [10]) @ fence"
    by (rule strip_fenced)
  have b: "strip (fence @ ([10] @ p @ [10]) @ fence) = fence @ ([10] @ p @ [10]) @ fence"
    by (rule strip_fenced)
  show ?thesis
    using a b remove_fence_json[of "p @ [10] @ fence"] remove_fence_bare[of "p @ [10] @ fence"]
    by (simp add: clean_response_def)
qed

lemma strip_space_front: "is_space c \<Longrightarrow> strip (c # s) = strip s"
  by (simp add: strip_def)

lemma strip_space_back:
  assumes "is_space c"
  shows "strip (s @ [c]) = strip s"
proof (cases "\<forall>x\<in>set s. is_space x")
  case True
  then have a: "dropWhile is_space s = []" by (induction s) auto
  from True assms have "\<forall>x\<in>set (s @ [c]). is_space x" by simp
  then have b: "dropWhile is_space (s @ [c]) = []" by (induction s) auto
  show ?thesis by (simp only: strip_def a b)
next
  case False
  then obtain x where "x \<in> set s" "\<not> is_space x" by blast
  then have "dropWhile is_space (s @ [c]) = dropWhile is_space s @ [c]"
    by (rule dropWhile_append1)
  then show ?thesis using assms by (simp add: strip_def)
qed

lemma hd_split_step:
  assumes "\<not> startswith (c # cs) sep"
  shows "hd (split sep (c # cs)) = c # hd (split sep cs)"
  using assms split_ne[of sep cs] by (cases "split sep cs") auto

lemma startswith_fence_before_newline:
  "startswith (p @ [10] @ r) fence \<Longrightarrow> startswith p fence"
proof (cases p)
  case Nil
  assume "startswith (p @ [10] @ r) fence"
  with Nil show ?thesis by (simp add: startswith_def fence_eq)
next
  case (Cons a p1)
  assume s: "startswith (p @ [10] @ r) fence"
  show ?thesis
  proof (cases p1)
    case Nil
    with Cons s show ?thesis by (simp add: startswith_def fence_eq)
  next
    case (Cons b p2)
    note c2 = this
    show ?thesis
    proof (cases p2)
      case Nil
      with \<open>p = a # p1\<close> c2 s show ?thesis by (simp add: startswith_def fence_eq)
    next
      case (Cons d p3)
      with \<open>p = a # p1\<close> c2 s show ?thesis by (simp add: startswith_def fence_eq)
    qed
  qed
qed

lemma hd_split_fence_free:
  "\<not> contains p fence \<Longrightarrow> hd (split fence (p @ [10] @ fence)) = p @ [10]"
proof (induction p)
  case Nil
  have "hd (split fence ([10] @ fence)) = [10] @ hd (split fence fence)"
    using fence_ne by (simp add: hd_split_other fence_eq del: split.simps)
  moreover have "hd (split fence fence) = []"
    by (simp add: fence_eq startswith_def)
  ultimately show ?case by simp
next
  case (Cons c cs)
  then have n: "\<not> startswith (c # cs) fence" and m: "\<not> contains cs fence" by simp_all
  have "\<not> startswith ((c # cs) @ [10] @ fence) fence"
    using n startswith_fence_before_newline by blast
  then have "\<not> startswith (c # (cs @ [10] @ fence)) fence" by simp
  from hd_split_step[OF this] Cons.IH[OF m] show ?case by simp
qed

lemma clean_response_json_wrapped:
  assumes "\<not> contains p fence"
  shows "clean_response (fence @ py ''json'' @ [10] @ p @ [10] @ fence) = Inr (strip p)"
proof -
  have a: "strip (fence @ (py ''json'' @ [10] @ p @ [10]) @ fence) =
           fence @ (py ''json'' @ [10] @ p @ [10]) @ fence"
    by (rule strip_fenced)
  have s: "is_space 10" by (simp add: is_space_def)
  have "strip ([10] @ p @ [10]) = strip p"
    using strip_space_front[OF s, of "p @ [10]"] strip_space_back[OF s, of p] by simp
  then show ?thesis
    using a remove_fence_json[of "p @ [10] @ fence"] hd_split_fence_free[OF assms]
    by (simp add: clean_response_def)
qed

lemma clean_response_bare_wrapped:
  assumes "\<not> contains p fence"
  shows "clean_response (fence @ [10] @ p @ [10] @ fence) = Inr (strip p)"
proof -
  have b: "strip (fence @ ([10] @ p @ [10]) @ fence) = fence @ ([10] @ p @ [10]) @ fence"
    by (rule strip_fenced)
  have s: "is_space 10" by (simp add: is_space_def)
  have "strip ([10] @ p @ [10]) = strip p"
    using strip_space_front[OF s, of "p @ [10]"] strip_space_back[OF s, of p] by simp
  then show ?thesis
    using b remove_fence_bare[of "p @ [10] @ fence"] hd_split_fence_free[OF assms]
    by (simp add: clean_response_def)
qed

lemma loads_doc_one_claim:
  "stub_loads doc_one_claim =
     Inr (PyList [PyDict [(py ''claim'', PyStr (py ''Revenue grew 40% in 2023''))]])"
  by (simp add: stub_loads_def json_samples_def)

lemma not_contains_doc_one_claim: "\<not> contains doc_one_claim fence"
  by (simp add: doc_one_claim_def py_def fence_eq startswith_def)

lemma strip_doc_one_claim: "strip doc_one_claim = doc_one_claim"
  by (rule strip_id) (simp add: doc_one_claim_def py_def is_space_def)

lemma clean_padded_array: "clean_response (py '' []'') = Inr (py ''[]'')"
  by (simp add: clean_response_def remove_fence_def strip_def startswith_def is_space_def
      fence_eq py_def)

lemma clean_fence_inside:
  "clean_response (fence @ py ''json'' @ [10] @ doc_fence_inside @ [10] @ fence) =
     Inr doc_fence_cut"
proof -
  have a: "strip (fence @ (py ''json'' @ [10] @ doc_fence_inside @ [10]) @ fence) =
           fence @ (py ''json'' @ [10] @ doc_fence_inside @ [10]) @ fence"
    by (rule strip_fenced)
  have h: "hd (split fence (doc_fence_inside @ [10] @ fence)) = doc_fence_cut"
    by (simp add: doc_fence_inside_def doc_fence_cut_def py_def fence_eq startswith_def)
  have s: "strip ([10] @ doc_fence_cut) = doc_fence_cut"
    by (simp add: strip_def doc_fence_cut_def py_def is_space_def)
  show ?thesis
    using a remove_fence_json[of "doc_fence_inside @ [10] @ fence"] h s
    by (simp add: clean_response_def)
qed

text \<open>
  C7, as the code has it. The step is lines 53 to 59: the content is trimmed, the fence is
  removed and the result is trimmed. It is idempotent. A string that does not begin with
  the fence once it is trimmed comes out trimmed, so the step is the identity on the
  strings without white space around them that do not begin with the fence. For every
  payload \<open>p\<close>, the payload between \<^verbatim>\<open>```json\<close> and \<^verbatim>\<open>```\<close> and the payload
  between \<^verbatim>\<open>```\<close> and \<^verbatim>\<open>```\<close> give the same cleaned string and the same parse
  result; when \<open>p\<close> has no fence inside, that string is \<open>p\<close> trimmed, so that what
  is parsed is the payload.
\<close>

theorem fence_stripping_step:
  "(\<exists>t. clean_response s = Inr t \<and> clean_response t = Inr t) \<and>
   (\<not> startswith (strip s) fence \<longrightarrow> clean_response s = Inr (strip s)) \<and>
   (strip s = s \<and> \<not> startswith s fence \<longrightarrow> clean_response s = Inr s) \<and>
   clean_response (fence @ py ''json'' @ [10] @ p @ [10] @ fence) =
     clean_response (fence @ [10] @ p @ [10] @ fence) \<and>
   parse_response loads (fence @ py ''json'' @ [10] @ p @ [10] @ fence) =
     parse_response loads (fence @ [10] @ p @ [10] @ fence) \<and>
   (\<not> contains p fence \<longrightarrow>
      clean_response (fence @ py ''json'' @ [10] @ p @ [10] @ fence) = Inr (strip p) \<and>
      clean_response (fence @ [10] @ p @ [10] @ fence) = Inr (strip p) \<and>
      parse_response loads (fence @ py ''json'' @ [10] @ p @ [10] @ fence) = loads (strip p) \<and>
      parse_response loads (fence @ [10] @ p @ [10] @ fence) = loads (strip p))"
  using clean_response_idem[of s] clean_response_plain[of s] clean_response_fenced[of p]
    clean_response_json_wrapped[of p] clean_response_bare_wrapped[of p]
  by (auto simp: parse_response_def)

text \<open>
  C7 fails as stated. The string of a space and \<^verbatim>\<open>[]\<close> does not begin with the
  fence and comes out without the space. The payload \<^verbatim>\<open>{"a": "```"}\<close>, between
  \<^verbatim>\<open>```json\<close> and \<^verbatim>\<open>```\<close>, comes out cut before its own fence.
\<close>

theorem fence_stripping_counterexample:
  "\<not> startswith (py '' []'') fence \<and>
   clean_response (py '' []'') = Inr (py ''[]'') \<and>
   py ''[]'' \<noteq> py '' []'' \<and>
   clean_response (fence @ py ''json'' @ [10] @ doc_fence_inside @ [10] @ fence) =
     Inr doc_fence_cut \<and>
   doc_fence_cut \<noteq> doc_fence_inside \<and>
   strip doc_fence_inside = doc_fence_inside"
proof -
  have "\<not> startswith (py '' []'') fence" by (simp add: startswith_def fence_eq py_def)
  moreover have "py ''[]'' \<noteq> py '' []''" by (simp add: py_def)
  moreover have "doc_fence_cut \<noteq> doc_fence_inside"
    by (simp add: doc_fence_cut_def doc_fence_inside_def py_def)
  moreover have "strip doc_fence_inside = doc_fence_inside"
    by (rule strip_id) (simp add: doc_fence_inside_def py_def is_space_def)
  ultimately show ?thesis using clean_padded_array clean_fence_inside by simp
qed

theorem fence_stripping_step_witness:
  "\<not> startswith (strip (py '' []'')) fence \<and>
   clean_response (py '' []'') = Inr (py ''[]'') \<and>
   strip doc_one_claim = doc_one_claim \<and>
   \<not> startswith doc_one_claim fence \<and>
   clean_response doc_one_claim = Inr doc_one_claim \<and>
   \<not> contains doc_one_claim fence \<and>
   clean_response (fence @ py ''json'' @ [10] @ doc_one_claim @ [10] @ fence) = Inr doc_one_claim \<and>
   clean_response (fence @ [10] @ doc_one_claim @ [10] @ fence) = Inr doc_one_claim \<and>
   parse_response stub_loads (fence @ py ''json'' @ [10] @ doc_one_claim @ [10] @ fence) =
     Inr (PyList [PyDict [(py ''claim'', PyStr (py ''Revenue grew 40% in 2023''))]]) \<and>
   parse_response stub_loads (fence @ [10] @ doc_one_claim @ [10] @ fence) =
     Inr (PyList [PyDict [(py ''claim'', PyStr (py ''Revenue grew 40% in 2023''))]])"
proof -
  have s0: "strip (py '' []'') = py ''[]''" by (simp add: strip_def py_def is_space_def)
  have f0: "\<not> startswith (py ''[]'') fence" by (simp add: startswith_def fence_eq py_def)
  have h1: "\<not> startswith (strip (py '' []'')) fence" using s0 f0 by simp
  have h2: "\<not> startswith doc_one_claim fence"
    by (simp add: startswith_def fence_eq doc_one_claim_def py_def)
  note h3 = not_contains_doc_one_claim
  note h4 = strip_doc_one_claim
  note t1 = fence_stripping_step[of "py '' []''" doc_one_claim stub_loads]
  note t2 = fence_stripping_step[of doc_one_claim doc_one_claim stub_loads]
  from t1 h1 s0 have r1: "clean_response (py '' []'') = Inr (py ''[]'')" by simp
  from t2 h2 h4 have r2: "clean_response doc_one_claim = Inr doc_one_claim" by simp
  from t2 h3 h4 have r3:
    "clean_response (fence @ py ''json'' @ [10] @ doc_one_claim @ [10] @ fence) = Inr doc_one_claim"
    "clean_response (fence @ [10] @ doc_one_claim @ [10] @ fence) = Inr doc_one_claim"
    "parse_response stub_loads (fence @ py ''json'' @ [10] @ doc_one_claim @ [10] @ fence) =
       stub_loads doc_one_claim"
    "parse_response stub_loads (fence @ [10] @ doc_one_claim @ [10] @ fence) =
       stub_loads doc_one_claim"
    by simp_all
  show ?thesis using h1 r1 h2 h3 h4 r2 r3 loads_doc_one_claim by simp
qed

section \<open>Evaluating the test doubles\<close>

lemma clean_response_unfenced:
  assumes "s \<noteq> []" and "\<not> is_space (hd s)" and "\<not> is_space (last s)" and "hd s \<noteq> 96"
  shows "clean_response s = Inr s"
proof -
  have st: "strip s = s" using assms by (simp add: strip_id)
  have "\<not> startswith s fence"
    using assms(1,4) by (cases s) (auto simp: startswith_def fence_eq)
  then show ?thesis using clean_response_plain[of s] st by simp
qed

lemma clean_doc_one_claim: "clean_response doc_one_claim = Inr doc_one_claim"
  by (rule clean_response_unfenced) (simp_all add: doc_one_claim_def py_def is_space_def)


lemma clean_doc_mixed: "clean_response doc_mixed = Inr doc_mixed"
  by (rule clean_response_unfenced) (simp_all add: doc_mixed_def py_def is_space_def)

lemma clean_doc_verified: "clean_response doc_verified = Inr doc_verified"
  by (rule clean_response_unfenced) (simp_all add: doc_verified_def py_def is_space_def)

lemma clean_doc_other_status: "clean_response doc_other_status = Inr doc_other_status"
  by (rule clean_response_unfenced) (simp_all add: doc_other_status_def py_def is_space_def)

lemma clean_doc_no_status: "clean_response doc_no_status = Inr doc_no_status"
  by (rule clean_response_unfenced) (simp_all add: doc_no_status_def py_def is_space_def)

lemma clean_not_json: "clean_response (py ''not json'') = Inr (py ''not json'')"
  by (rule clean_response_unfenced) (simp_all add: py_def is_space_def)

lemmas doc_defs =
  doc_one_claim_def doc_blank_claim_def doc_mixed_def doc_verified_def doc_other_status_def
  doc_no_status_def doc_array_def


lemma loads_doc_mixed:
  "stub_loads doc_mixed =
     Inr (PyList [PyDict [(py ''claim'', PyStr (py ''a''))], PyDict [(py ''text'', PyStr (py ''b''))]])"
  by (simp add: stub_loads_def json_samples_def doc_defs py_def)

lemma loads_doc_verified:
  "stub_loads doc_verified =
     Inr (PyDict [(py ''status'', PyStr (py ''Verified'')), (py ''explanation'', PyStr (py ''x'')),
                  (py ''sources'', PyList [])])"
  by (simp add: stub_loads_def json_samples_def doc_defs py_def)

lemma loads_doc_other_status:
  "stub_loads doc_other_status =
     Inr (PyDict [(py ''status'', PyStr (py ''Unverified'')), (py ''explanation'', PyStr (py ''x'')),
                  (py ''sources'', PyList [])])"
  by (simp add: stub_loads_def json_samples_def doc_defs py_def)

lemma loads_doc_no_status:
  "stub_loads doc_no_status = Inr (PyDict [(py ''explanation'', PyStr (py ''x''))])"
  by (simp add: stub_loads_def json_samples_def doc_defs py_def)

lemma loads_not_json:
  "stub_loads (py ''not json'') = Inl (Raised (py ''Expecting value: line 1 column 1 (char 0)''))"
  by (simp add: stub_loads_def json_samples_def doc_defs py_def)

lemma context_no_results: "build_context env no_results = Inr []"
  by (simp add: build_context_def no_results_def py_def)

section \<open>One verdict per claim\<close>

lemma getitem_setitem: "setitem r k w = Inr r' \<Longrightarrow> getitem r' k = Inr w"
  by (cases r) (auto simp: update_conv')

lemma verify_claim_try_result:
  "verify_claim_try env claim x = (Inr r, x') \<Longrightarrow>
   \<exists>result. setitem result (py ''claim'') claim = Inr r"
  by (auto simp: verify_claim_try_def verdict_of_reply_def split: prod.splits sum.splits)

lemma verify_claim_keeps_claim:
  assumes "verify_claim env claim x = (v, x')"
  shows "getitem v (py ''claim'') = Inr claim"
proof (cases "fst (verify_claim_try env claim x)")
  case (Inl e)
  then have "v = error_verdict claim e"
    using assms by (cases "verify_claim_try env claim x") (simp add: verify_claim_def)
  then show ?thesis by (simp add: error_verdict_def)
next
  case (Inr r)
  then have t: "verify_claim_try env claim x = (Inr r, x')" and "v = r"
    using assms by (cases "verify_claim_try env claim x"; simp add: verify_claim_def)+
  then show ?thesis using verify_claim_try_result[OF t] getitem_setitem by blast
qed

lemma verify_loop_appends:
  "verify_loop env claims acc x = (vs, x') \<Longrightarrow>
   \<exists>ws. vs = acc @ ws \<and> length ws = length claims \<and>
        (\<forall>i<length claims. getitem (ws ! i) (py ''claim'') = Inr (claims ! i))"
proof (induction claims arbitrary: acc x)
  case Nil
  then show ?case by simp
next
  case (Cons c cs)
  obtain v x1 where v: "verify_claim env c x = (v, x1)" by (cases "verify_claim env c x")
  with Cons.prems have "verify_loop env cs (acc @ [v]) x1 = (vs, x')" by simp
  from Cons.IH[OF this] obtain ws where ws: "vs = (acc @ [v]) @ ws" "length ws = length cs"
    "\<forall>i<length cs. getitem (ws ! i) (py ''claim'') = Inr (cs ! i)" by blast
  have "\<forall>i<length (c # cs). getitem ((v # ws) ! i) (py ''claim'') = Inr ((c # cs) ! i)"
  proof (intro allI impI)
    fix i assume "i < length (c # cs)"
    then show "getitem ((v # ws) ! i) (py ''claim'') = Inr ((c # cs) ! i)"
      using ws(3) verify_claim_keeps_claim[OF v] by (cases i) auto
  qed
  then show ?case using ws(1,2) by (intro exI[of _ "v # ws"]) simp
qed

text \<open>
  C1: for every non-empty sequence of claims that \<open>extract_claims\<close> returns, the loop of
  the run produces one verdict per claim, in the order of the claims, and the \<open>i\<close>-th
  verdict has the \<open>i\<close>-th claim under \<^verbatim>\<open>claim\<close>.
\<close>

theorem one_verdict_per_claim:
  assumes "extract_claims env text x = ((claims, errs), x1)"
    and "claims \<noteq> []"
    and "verify_loop env claims [] x1 = (verdicts, x2)"
  shows "length verdicts = length claims \<and>
         (\<forall>i<length claims. getitem (verdicts ! i) (py ''claim'') = Inr (claims ! i))"
  using verify_loop_appends[OF assms(3)] by auto

lemma extract_revenue:
  "extract_claims env_revenue [] () = (([PyStr (py ''Revenue grew 40% in 2023'')], []), ())"
  by (simp add: extract_claims_def extract_claims_try_def env_revenue_def stub_env_def
      parse_reply_def parse_response_def clean_doc_one_claim loads_doc_one_claim claims_of_def)

lemma verify_revenue:
  "verify_claim env_revenue claim () =
     (PyDict [(py ''status'', PyStr (py ''Verified'')), (py ''explanation'', PyStr (py ''x'')),
              (py ''sources'', PyList []), (py ''claim'', claim)], ())"
  by (simp add: verify_claim_def verify_claim_try_def env_revenue_def stub_env_def
      context_no_results verdict_of_reply_def parse_reply_def parse_response_def
      clean_doc_verified loads_doc_verified py_def)

theorem one_verdict_per_claim_witness:
  "extract_claims env_revenue [] () = (([PyStr (py ''Revenue grew 40% in 2023'')], []), ()) \<and>
   [PyStr (py ''Revenue grew 40% in 2023'')] \<noteq> [] \<and>
   length (fst (verify_loop env_revenue [PyStr (py ''Revenue grew 40% in 2023'')] [] ())) = 1 \<and>
   getitem (fst (verify_loop env_revenue [PyStr (py ''Revenue grew 40% in 2023'')] [] ()) ! 0)
     (py ''claim'') = Inr (PyStr (py ''Revenue grew 40% in 2023''))"
proof -
  let ?c = "PyStr (py ''Revenue grew 40% in 2023'')"
  have h1: "extract_claims env_revenue [] () = (([?c], []), ())" by (rule extract_revenue)
  have h2: "[?c] \<noteq> []" by simp
  obtain vs where h3: "verify_loop env_revenue [?c] [] () = (vs, ())"
    by (cases "verify_loop env_revenue [?c] [] ()") simp
  show ?thesis using h1 h3 one_verdict_per_claim[OF h1 h2 h3] by simp
qed

section \<open>Failures of \<^verbatim>\<open>verify_claim\<close>\<close>

lemma verify_claim_caught:
  "verify_claim_try env claim x = (Inl e, x') \<Longrightarrow>
   verify_claim env claim x = (error_verdict claim e, x')"
  by (simp add: verify_claim_def)

lemma verify_claim_try_search_raises:
  "tavily_search env claim x = (Inl e, x') \<Longrightarrow> verify_claim_try env claim x = (Inl e, x')"
  by (simp add: verify_claim_try_def)

lemma verify_claim_try_chat_raises:
  "tavily_search env claim x = (Inr found, x1) \<Longrightarrow> build_context env found = Inr ctx \<Longrightarrow>
   chat_verify env claim ctx x1 = (Inl e, x') \<Longrightarrow>
   verify_claim_try env claim x = (Inl e, x')"
  by (simp add: verify_claim_try_def)

lemma verify_claim_try_malformed:
  "tavily_search env claim x = (Inr found, x1) \<Longrightarrow> build_context env found = Inr ctx \<Longrightarrow>
   chat_verify env claim ctx x1 = (Inr (Some content), x') \<Longrightarrow>
   clean_response content = Inr s \<Longrightarrow> json_loads env s = Inl e \<Longrightarrow>
   verify_claim_try env claim x = (Inl e, x')"
  by (simp add: verify_claim_try_def verdict_of_reply_def parse_reply_def parse_response_def)

text \<open>
  C2: \<open>verify_claim\<close> is a total function to a verdict, whatever the services do. Every
  exception \<open>e\<close> of the \<^verbatim>\<open>try\<close> body gives the verdict with status \<^verbatim>\<open>Error\<close>, the
  explanation \<^verbatim>\<open>Could not verify: \<close> followed by \<^verbatim>\<open>str(e)\<close>, and no sources;
  an exception of the search, an exception of the classification request and a reply
  that \<^verbatim>\<open>json.loads\<close> rejects are such exceptions, and a search without results
  raises none while the context is built.
\<close>

theorem verify_claim_never_raises:
  "(verify_claim_try env claim x = (Inl e, x') \<longrightarrow>
      verify_claim env claim x =
        (PyDict [(py ''claim'', claim),
                 (py ''status'', PyStr (py ''Error'')),
                 (py ''explanation'', PyStr (py ''Could not verify: '' @ exn_str e)),
                 (py ''sources'', PyList [])], x')) \<and>
   (tavily_search env claim x = (Inl e, x') \<longrightarrow>
      verify_claim env claim x = (error_verdict claim e, x')) \<and>
   (tavily_search env claim x = (Inr found, x1) \<and> build_context env found = Inr ctx \<and>
    chat_verify env claim ctx x1 = (Inl e, x') \<longrightarrow>
      verify_claim env claim x = (error_verdict claim e, x')) \<and>
   (tavily_search env claim x = (Inr found, x1) \<and> build_context env found = Inr ctx \<and>
    chat_verify env claim ctx x1 = (Inr (Some content), x') \<and>
    clean_response content = Inr s \<and> json_loads env s = Inl e \<longrightarrow>
      verify_claim env claim x = (error_verdict claim e, x')) \<and>
   getitem (error_verdict claim e) (py ''status'') = Inr (PyStr (py ''Error'')) \<and>
   getitem (error_verdict claim e) (py ''explanation'') =
     Inr (PyStr (py ''Could not verify: '' @ exn_str e)) \<and>
   getitem (error_verdict claim e) (py ''sources'') = Inr (PyList []) \<and>
   build_context env (PyDict [(py ''results'', PyList [])]) = Inr []"
proof -
  have a: "getitem (error_verdict claim e) (py ''status'') = Inr (PyStr (py ''Error''))"
    by (simp add: error_verdict_def py_def)
  have b: "getitem (error_verdict claim e) (py ''explanation'') =
           Inr (PyStr (py ''Could not verify: '' @ exn_str e))"
    by (simp add: error_verdict_def py_def)
  have c: "getitem (error_verdict claim e) (py ''sources'') = Inr (PyList [])"
    by (simp add: error_verdict_def py_def)
  have d: "build_context env (PyDict [(py ''results'', PyList [])]) = Inr []"
    by (simp add: build_context_def)
  show ?thesis
    using a b c d verify_claim_caught[of env claim x e x']
      verify_claim_try_search_raises[of env claim x e x']
      verify_claim_try_chat_raises[of env claim x found x1 ctx e x']
      verify_claim_try_malformed[of env claim x found x1 ctx content x' s e]
    by (simp add: error_verdict_def)
qed

theorem verify_claim_never_raises_witness:
  "verify_claim_try env_search_down (PyStr (py ''a'')) () =
     (Inl (Raised (py ''Connection refused'')), ()) \<and>
   verify_claim env_search_down (PyStr (py ''a'')) () =
     (PyDict [(py ''claim'', PyStr (py ''a'')),
              (py ''status'', PyStr (py ''Error'')),
              (py ''explanation'', PyStr (py ''Could not verify: Connection refused'')),
              (py ''sources'', PyList [])], ()) \<and>
   chat_verify env_chat_down (PyStr (py ''a'')) [] () = (Inl (Raised (py ''Request timed out.'')), ()) \<and>
   verify_claim env_chat_down (PyStr (py ''a'')) () =
     (error_verdict (PyStr (py ''a'')) (Raised (py ''Request timed out.'')), ()) \<and>
   chat_verify env_garbled (PyStr (py ''a'')) [] () = (Inr (Some (py ''not json'')), ()) \<and>
   json_loads env_garbled (py ''not json'') =
     Inl (Raised (py ''Expecting value: line 1 column 1 (char 0)'')) \<and>
   verify_claim env_garbled (PyStr (py ''a'')) () =
     (error_verdict (PyStr (py ''a'')) (Raised (py ''Expecting value: line 1 column 1 (char 0)'')), ())"
proof -
  let ?c = "PyStr (py ''a'')"
  have s1: "tavily_search env_search_down ?c () = (Inl (Raised (py ''Connection refused'')), ())"
    by (simp add: env_search_down_def stub_env_def)
  then have t1: "verify_claim_try env_search_down ?c () =
                 (Inl (Raised (py ''Connection refused'')), ())"
    by (rule verify_claim_try_search_raises)
  have s2: "tavily_search env_chat_down ?c () = (Inr no_results, ())"
    by (simp add: env_chat_down_def stub_env_def)
  have c2: "chat_verify env_chat_down ?c [] () = (Inl (Raised (py ''Request timed out.'')), ())"
    by (simp add: env_chat_down_def stub_env_def)
  have s3: "tavily_search env_garbled ?c () = (Inr no_results, ())"
    by (simp add: env_garbled_def stub_env_def)
  have c3: "chat_verify env_garbled ?c [] () = (Inr (Some (py ''not json'')), ())"
    by (simp add: env_garbled_def stub_env_def)
  have l3: "json_loads env_garbled (py ''not json'') =
            Inl (Raised (py ''Expecting value: line 1 column 1 (char 0)''))"
    by (simp add: env_garbled_def stub_env_def loads_not_json)
  have m: "py ''Could not verify: '' @ py ''Connection refused'' =
           py ''Could not verify: Connection refused''"
    by (simp add: py_def)
  show ?thesis
    using t1 s1 s2 c2 s3 c3 l3 m clean_not_json context_no_results[of env_chat_down]
      context_no_results[of env_garbled]
      verify_claim_never_raises[where env = env_search_down and claim = ?c and x = "()"
        and e = "Raised (py ''Connection refused'')" and x' = "()"]
      verify_claim_never_raises[where env = env_chat_down and claim = ?c and x = "()"
        and e = "Raised (py ''Request timed out.'')" and x' = "()" and found = no_results
        and ?x1.0 = "()" and ctx = "[]"]
      verify_claim_never_raises[where env = env_garbled and claim = ?c and x = "()"
        and e = "Raised (py ''Expecting value: line 1 column 1 (char 0)'')" and x' = "()"
        and found = no_results and ?x1.0 = "()" and ctx = "[]" and content = "py ''not json''"
        and s = "py ''not json''"]
    by simp
qed

section \<open>\<^verbatim>\<open>extract_claims\<close> fails soft\<close>

lemma extract_claims_caught:
  "extract_claims_try env text x = (Inl e, x') \<Longrightarrow>
   extract_claims env text x = (([], [py ''Error extracting claims: '' @ exn_str e]), x')"
  by (simp add: extract_claims_def)

lemma extract_claims_try_raises:
  "chat_extract env (take 8000 text) x = (Inl e, x') \<Longrightarrow>
   extract_claims_try env text x = (Inl e, x')"
  by (simp add: extract_claims_try_def)

lemma extract_claims_try_invalid:
  "chat_extract env (take 8000 text) x = (Inr (Some content), x') \<Longrightarrow>
   clean_response content = Inr s \<Longrightarrow> json_loads env s = Inl e \<Longrightarrow>
   extract_claims_try env text x = (Inl e, x')"
  by (simp add: extract_claims_try_def parse_reply_def parse_response_def)

text \<open>
  C6: when the cleaned content of the reply is not valid JSON, and when the extraction
  request raises, \<open>extract_claims\<close> gives the error to \<^verbatim>\<open>st.error\<close> and returns the
  empty list; so it does for every exception of its \<^verbatim>\<open>try\<close> body, and it is a total
  function to a list.
\<close>

theorem extract_claims_fails_soft:
  "(chat_extract env (take 8000 text) x = (Inr (Some content), x') \<and>
    clean_response content = Inr s \<and> json_loads env s = Inl e \<longrightarrow>
      extract_claims env text x = (([], [py ''Error extracting claims: '' @ exn_str e]), x')) \<and>
   (chat_extract env (take 8000 text) x = (Inl e, x') \<longrightarrow>
      extract_claims env text x = (([], [py ''Error extracting claims: '' @ exn_str e]), x')) \<and>
   (extract_claims_try env text x = (Inl e, x') \<longrightarrow>
      extract_claims env text x = (([], [py ''Error extracting claims: '' @ exn_str e]), x'))"
  using extract_claims_caught[of env "text" x e x'] extract_claims_try_raises[of env "text" x e x']
    extract_claims_try_invalid[of env "text" x content x' s e]
  by simp

theorem extract_claims_fails_soft_witness:
  "chat_extract env_garbled (take 8000 (py ''Some text'')) () = (Inr (Some (py ''not json'')), ()) \<and>
   clean_response (py ''not json'') = Inr (py ''not json'') \<and>
   json_loads env_garbled (py ''not json'') =
     Inl (Raised (py ''Expecting value: line 1 column 1 (char 0)'')) \<and>
   extract_claims env_garbled (py ''Some text'') () =
     (([], [py ''Error extracting claims: Expecting value: line 1 column 1 (char 0)'']), ()) \<and>
   chat_extract env_chat_down (take 8000 (py ''Some text'')) () =
     (Inl (Raised (py ''Request timed out.'')), ()) \<and>
   extract_claims env_chat_down (py ''Some text'') () =
     (([], [py ''Error extracting claims: Request timed out.'']), ())"
proof -
  have c1: "chat_extract env_garbled (take 8000 (py ''Some text'')) () =
            (Inr (Some (py ''not json'')), ())"
    by (simp add: env_garbled_def stub_env_def)
  have l1: "json_loads env_garbled (py ''not json'') =
            Inl (Raised (py ''Expecting value: line 1 column 1 (char 0)''))"
    by (simp add: env_garbled_def stub_env_def loads_not_json)
  have c2: "chat_extract env_chat_down (take 8000 (py ''Some text'')) () =
            (Inl (Raised (py ''Request timed out.'')), ())"
    by (simp add: env_chat_down_def stub_env_def)
  have t2: "extract_claims_try env_chat_down (py ''Some text'') () =
            (Inl (Raised (py ''Request timed out.'')), ())"
    using c2 by (rule extract_claims_try_raises)
  have m1: "py ''Error extracting claims: '' @ py ''Expecting value: line 1 column 1 (char 0)'' =
            py ''Error extracting claims: Expecting value: line 1 column 1 (char 0)''"
    by (simp add: py_def)
  have m2: "py ''Error extracting claims: '' @ py ''Request timed out.'' =
            py ''Error extracting claims: Request timed out.''"
    by (simp add: py_def)
  show ?thesis
    using c1 l1 c2 t2 m1 m2 clean_not_json
      extract_claims_fails_soft[where env = env_garbled and ?text = "py ''Some text''"
        and x = "()" and content = "py ''not json''" and x' = "()" and s = "py ''not json''"
        and e = "Raised (py ''Expecting value: line 1 column 1 (char 0)'')"]
      extract_claims_fails_soft[where env = env_chat_down and ?text = "py ''Some text''"
        and x = "()" and x' = "()" and e = "Raised (py ''Request timed out.'')"]
    by simp
qed

section \<open>Extraction is all or nothing\<close>

lemma getitem_claim_object: "getitem c (py ''claim'') = Inr v \<Longrightarrow> is_claim_object c"
  by (cases c) (auto split: option.splits)

lemma map_exn_nth:
  "map_exn f xs = Inr ys \<Longrightarrow> length ys = length xs \<and> (\<forall>i<length xs. f (xs ! i) = Inr (ys ! i))"
proof (induction xs arbitrary: ys)
  case Nil
  then show ?case by simp
next
  case (Cons a xs)
  from Cons.prems obtain y ys' where y: "f a = Inr y" "map_exn f xs = Inr ys'" "ys = y # ys'"
    by (auto split: sum.splits)
  from Cons.IH[OF y(2)] have ih: "length ys' = length xs" "\<forall>i<length xs. f (xs ! i) = Inr (ys' ! i)"
    by auto
  have "\<forall>i<length (a # xs). f ((a # xs) ! i) = Inr (ys ! i)"
  proof (intro allI impI)
    fix i assume "i < length (a # xs)"
    then show "f ((a # xs) ! i) = Inr (ys ! i)" using y ih by (cases i) auto
  qed
  then show ?case using y ih by simp
qed

lemma map_exn_all:
  assumes "map_exn f xs = Inr ys" and "c \<in> set xs"
  shows "\<exists>v. f c = Inr v"
proof -
  from assms(2) obtain i where "i < length xs" "xs ! i = c" by (auto simp: in_set_conv_nth)
  then show ?thesis using map_exn_nth[OF assms(1)] by auto
qed

text \<open>
  C10: when the reply parses as a JSON array with an element that is not an object with a
  \<^verbatim>\<open>claim\<close> key, \<open>extract_claims\<close> returns the empty list and reports an error: the
  well-formed elements of the array are not returned.
\<close>

theorem extraction_all_or_nothing:
  assumes "chat_extract env (take 8000 text) x = (Inr (Some content), x')"
    and "clean_response content = Inr s"
    and "json_loads env s = Inr (PyList items)"
    and "c \<in> set items"
    and "\<not> is_claim_object c"
  shows "\<exists>e. extract_claims env text x =
               (([], [py ''Error extracting claims: '' @ exn_str e]), x')"
proof -
  have t: "extract_claims_try env text x =
           (map_exn (\<lambda>c. getitem c (py ''claim'')) items, x')"
    using assms(1-3)
    by (simp add: extract_claims_try_def parse_reply_def parse_response_def claims_of_def)
  show ?thesis
  proof (cases "map_exn (\<lambda>c. getitem c (py ''claim'')) items")
    case (Inl e)
    with t show ?thesis using extract_claims_caught by fastforce
  next
    case (Inr cs)
    from map_exn_all[OF Inr assms(4)] assms(5) show ?thesis
      using getitem_claim_object by blast
  qed
qed

theorem extraction_all_or_nothing_witness:
  "chat_extract env_mixed (take 8000 (py ''Some text'')) () = (Inr (Some doc_mixed), ()) \<and>
   clean_response doc_mixed = Inr doc_mixed \<and>
   json_loads env_mixed doc_mixed =
     Inr (PyList [PyDict [(py ''claim'', PyStr (py ''a''))], PyDict [(py ''text'', PyStr (py ''b''))]]) \<and>
   is_claim_object (PyDict [(py ''claim'', PyStr (py ''a''))]) \<and>
   \<not> is_claim_object (PyDict [(py ''text'', PyStr (py ''b''))]) \<and>
   (\<exists>e. extract_claims env_mixed (py ''Some text'') () =
          (([], [py ''Error extracting claims: '' @ exn_str e]), ())) \<and>
   extract_claims env_mixed (py ''Some text'') () =
     (([], [py ''Error extracting claims: '' @ quoted (py ''claim'')]), ())"
proof -
  let ?a = "PyDict [(py ''claim'', PyStr (py ''a''))]"
  let ?b = "PyDict [(py ''text'', PyStr (py ''b''))]"
  have h1: "chat_extract env_mixed (take 8000 (py ''Some text'')) () = (Inr (Some doc_mixed), ())"
    by (simp add: env_mixed_def stub_env_def)
  have h3: "json_loads env_mixed doc_mixed = Inr (PyList [?a, ?b])"
    by (simp add: env_mixed_def stub_env_def loads_doc_mixed)
  have h4: "?b \<in> set [?a, ?b]" by simp
  have h5: "\<not> is_claim_object ?b" by (simp add: py_def)
  have h6: "is_claim_object ?a" by simp
  have r: "extract_claims env_mixed (py ''Some text'') () =
           (([], [py ''Error extracting claims: '' @ quoted (py ''claim'')]), ())"
    using h1 h3 clean_doc_mixed
    by (simp add: extract_claims_def extract_claims_try_def parse_reply_def parse_response_def
        claims_of_def quoted_def py_def)
  show ?thesis
    using h1 h3 h5 h6 r clean_doc_mixed
      extraction_all_or_nothing[OF h1 clean_doc_mixed h3 h4 h5]
    by simp
qed

section \<open>The claims are returned as they were parsed\<close>





section \<open>The summary counts\<close>

lemma count_status_filter:
  "count_status st rs = Inr n \<Longrightarrow>
   n = length (filter (\<lambda>r. getitem r (py ''status'') = Inr (PyStr st)) rs)"
  by (induction rs arbitrary: n) (auto split: sum.splits)

lemma count_status_defined:
  "\<forall>r\<in>set rs. \<exists>v. getitem r (py ''status'') = Inr v \<Longrightarrow> \<exists>n. count_status st rs = Inr n"
  by (induction rs) (auto split: sum.splits)

lemma status_strings_distinct:
  "py ''Verified'' \<noteq> py ''Inaccurate''" "py ''Verified'' \<noteq> py ''False''"
  "py ''Verified'' \<noteq> py ''Error''" "py ''Inaccurate'' \<noteq> py ''False''"
  "py ''Inaccurate'' \<noteq> py ''Error''" "py ''False'' \<noteq> py ''Error''"
  by (simp_all add: py_def)

lemma four_groups:
  "\<forall>r\<in>set rs. \<exists>v. getitem r (py ''status'') = Inr v \<and> known_status v \<Longrightarrow>
   length (filter (\<lambda>r. getitem r (py ''status'') = Inr (PyStr (py ''Verified''))) rs) +
   length (filter (\<lambda>r. getitem r (py ''status'') = Inr (PyStr (py ''Inaccurate''))) rs) +
   length (filter (\<lambda>r. getitem r (py ''status'') = Inr (PyStr (py ''False''))) rs) +
   length (filter (\<lambda>r. getitem r (py ''status'') = Inr (PyStr (py ''Error''))) rs) = length rs"
proof (induction rs)
  case Nil
  then show ?case by simp
next
  case (Cons r rs)
  then obtain v where v: "getitem r (py ''status'') = Inr v" "known_status v" by auto
  from Cons have ih: "length (filter (\<lambda>r. getitem r (py ''status'') = Inr (PyStr (py ''Verified''))) rs) +
   length (filter (\<lambda>r. getitem r (py ''status'') = Inr (PyStr (py ''Inaccurate''))) rs) +
   length (filter (\<lambda>r. getitem r (py ''status'') = Inr (PyStr (py ''False''))) rs) +
   length (filter (\<lambda>r. getitem r (py ''status'') = Inr (PyStr (py ''Error''))) rs) = length rs"
    by simp
  from v(2) consider "v = PyStr (py ''Verified'')" | "v = PyStr (py ''Inaccurate'')"
    | "v = PyStr (py ''False'')" | "v = PyStr (py ''Error'')"
    by (auto simp: known_status_def)
  then show ?case
    using v(1) ih status_strings_distinct by cases simp_all
qed

lemma three_groups:
  "length (filter (\<lambda>r. getitem r (py ''status'') = Inr (PyStr (py ''Verified''))) rs) +
   length (filter (\<lambda>r. getitem r (py ''status'') = Inr (PyStr (py ''Inaccurate''))) rs) +
   length (filter (\<lambda>r. getitem r (py ''status'') = Inr (PyStr (py ''False''))) rs) +
   length (filter uncounted rs) = length rs"
proof (induction rs)
  case Nil
  then show ?case by simp
next
  case (Cons r rs)
  consider "getitem r (py ''status'') = Inr (PyStr (py ''Verified''))"
    | "getitem r (py ''status'') = Inr (PyStr (py ''Inaccurate''))"
    | "getitem r (py ''status'') = Inr (PyStr (py ''False''))"
    | "uncounted r"
    by (auto simp: uncounted_def)
  then show ?case
    using Cons status_strings_distinct by cases (simp_all add: uncounted_def)
qed

lemma summary_counts_filter:
  assumes "summary_counts rs = Inr (v, i, f)"
  shows "v = length (filter (\<lambda>r. getitem r (py ''status'') = Inr (PyStr (py ''Verified''))) rs)"
    and "i = length (filter (\<lambda>r. getitem r (py ''status'') = Inr (PyStr (py ''Inaccurate''))) rs)"
    and "f = length (filter (\<lambda>r. getitem r (py ''status'') = Inr (PyStr (py ''False''))) rs)"
  using assms count_status_filter
  by (auto simp: summary_counts_def split: sum.splits)

text \<open>
  C3, as the code has it: when every verdict has one of the four statuses, the three
  counts of the source and the count of the verdicts with status \<^verbatim>\<open>Error\<close> add up to
  the number of verdicts. In every run that computes its counts, the three counts and the
  number of the verdicts counted in none of the three groups add up to it.
\<close>

theorem summary_counts_total:
  "((\<forall>r\<in>set results. \<exists>s. getitem r (py ''status'') = Inr s \<and> known_status s) \<longrightarrow>
      (\<exists>v i f e. summary_counts results = Inr (v, i, f) \<and> spec_error_count results = Inr e \<and>
         v + i + f + e = length results)) \<and>
   (summary_counts results = Inr (v, i, f) \<longrightarrow>
      v + i + f + length (filter uncounted results) = length results)"
proof (intro conjI impI)
  assume a: "\<forall>r\<in>set results. \<exists>s. getitem r (py ''status'') = Inr s \<and> known_status s"
  then have d: "\<forall>r\<in>set results. \<exists>s. getitem r (py ''status'') = Inr s" by blast
  obtain v where v: "count_status (py ''Verified'') results = Inr v"
    using count_status_defined[OF d] by blast
  obtain i where i: "count_status (py ''Inaccurate'') results = Inr i"
    using count_status_defined[OF d] by blast
  obtain f where f: "count_status (py ''False'') results = Inr f"
    using count_status_defined[OF d] by blast
  obtain e where e: "count_status (py ''Error'') results = Inr e"
    using count_status_defined[OF d] by blast
  have "v + i + f + e = length results"
    using four_groups[OF a] count_status_filter[OF v] count_status_filter[OF i]
      count_status_filter[OF f] count_status_filter[OF e] by simp
  moreover have "summary_counts results = Inr (v, i, f)"
    using v i f by (simp add: summary_counts_def)
  moreover have "spec_error_count results = Inr e"
    using e by (simp add: spec_error_count_def)
  ultimately show "\<exists>v i f e. summary_counts results = Inr (v, i, f) \<and>
      spec_error_count results = Inr e \<and> v + i + f + e = length results"
    by blast
next
  assume "summary_counts results = Inr (v, i, f)"
  from summary_counts_filter[OF this] three_groups[of results]
  show "v + i + f + length (filter uncounted results) = length results" by simp
qed

lemma verify_other_status:
  "verify_claim env_other_status claim () =
     (PyDict [(py ''status'', PyStr (py ''Unverified'')), (py ''explanation'', PyStr (py ''x'')),
              (py ''sources'', PyList []), (py ''claim'', claim)], ())"
  by (simp add: verify_claim_def verify_claim_try_def env_other_status_def stub_env_def
      context_no_results verdict_of_reply_def parse_reply_def parse_response_def
      clean_doc_other_status loads_doc_other_status py_def)

lemma extract_other_status:
  "extract_claims env_other_status t () = (([PyStr (py ''Revenue grew 40% in 2023'')], []), ())"
  by (simp add: extract_claims_def extract_claims_try_def env_other_status_def stub_env_def
      parse_reply_def parse_response_def clean_doc_one_claim loads_doc_one_claim claims_of_def)

text \<open>
  C3 fails as stated: in the run where the classification reply has the status
  \<^verbatim>\<open>Unverified\<close>, one claim is extracted and the four counts are all zero.
\<close>

theorem summary_counts_counterexample:
  "fst (extract_claims env_other_status (py ''Some text'') ()) =
     ([PyStr (py ''Revenue grew 40% in 2023'')], []) \<and>
   fst (check_text env_other_status (py ''Some text'') ()) =
     Inr (Checked
       [PyDict [(py ''status'', PyStr (py ''Unverified'')), (py ''explanation'', PyStr (py ''x'')),
                (py ''sources'', PyList []),
                (py ''claim'', PyStr (py ''Revenue grew 40% in 2023''))]] 0 0 0) \<and>
   spec_error_count
     [PyDict [(py ''status'', PyStr (py ''Unverified'')), (py ''explanation'', PyStr (py ''x'')),
              (py ''sources'', PyList []),
              (py ''claim'', PyStr (py ''Revenue grew 40% in 2023''))]] = Inr 0"
  by (simp add: check_text_def extract_other_status verify_other_status summary_counts_def
      spec_error_count_def, simp add: py_def env_other_status_def stub_env_def)

theorem summary_counts_total_witness:
  "getitem (fst (verify_claim env_revenue (PyStr (py ''a'')) ())) (py ''status'') =
     Inr (PyStr (py ''Verified'')) \<and>
   known_status (PyStr (py ''Verified'')) \<and>
   summary_counts [fst (verify_claim env_revenue (PyStr (py ''a'')) ())] = Inr (1, 0, 0) \<and>
   spec_error_count [fst (verify_claim env_revenue (PyStr (py ''a'')) ())] = Inr 0 \<and>
   (\<exists>v i f e. summary_counts [fst (verify_claim env_revenue (PyStr (py ''a'')) ())] = Inr (v, i, f) \<and>
      spec_error_count [fst (verify_claim env_revenue (PyStr (py ''a'')) ())] = Inr e \<and>
      v + i + f + e = length [fst (verify_claim env_revenue (PyStr (py ''a'')) ())]) \<and>
   1 + 0 + 0 + length (filter uncounted [fst (verify_claim env_revenue (PyStr (py ''a'')) ())]) =
     length [fst (verify_claim env_revenue (PyStr (py ''a'')) ())]"
proof -
  let ?r = "fst (verify_claim env_revenue (PyStr (py ''a'')) ())"
  have s: "getitem ?r (py ''status'') = Inr (PyStr (py ''Verified''))"
    by (simp add: verify_revenue)
  have k: "known_status (PyStr (py ''Verified''))" by (simp add: known_status_def)
  have h: "\<forall>r\<in>set [?r]. \<exists>s. getitem r (py ''status'') = Inr s \<and> known_status s"
    using s k by simp
  have c: "summary_counts [?r] = Inr (1, 0, 0)"
    using s status_strings_distinct by (simp add: summary_counts_def)
  have e: "spec_error_count [?r] = Inr 0"
    using s status_strings_distinct by (simp add: spec_error_count_def)
  note t = summary_counts_total[of "[?r]" 1 0 0]
  from t h have "\<exists>v i f e. summary_counts [?r] = Inr (v, i, f) \<and>
      spec_error_count [?r] = Inr e \<and> v + i + f + e = length [?r]" by blast
  moreover from t c have "1 + 0 + 0 + length (filter uncounted [?r]) = length [?r]" by blast
  ultimately show ?thesis using s k c e by blast
qed

section \<open>What \<^verbatim>\<open>verify_claim\<close> returns for a reply that parses\<close>









section \<open>Replies with missing fields\<close>

lemma verify_no_status:
  "verify_claim env_no_status claim () =
     (PyDict [(py ''explanation'', PyStr (py ''x'')), (py ''claim'', claim)], ())"
  by (simp add: verify_claim_def verify_claim_try_def env_no_status_def stub_env_def
      context_no_results verdict_of_reply_def parse_reply_def parse_response_def
      clean_doc_no_status loads_doc_no_status py_def)

section \<open>The temporary file\<close>

lemma process_pdf_files: "files (process_pdf env pdf_path fs x) = fs - {pdf_path}"
  by (auto simp: process_pdf_def Let_def split: prod.splits sum.splits)

lemma process_pdf_unreadable:
  "load_pdf env pdf_path x = (Inl e, x') \<Longrightarrow>
   ending (process_pdf env pdf_path fs x) = Failed (py ''Error processing PDF: '' @ exn_str e)"
  by (simp add: process_pdf_def Let_def)

lemma process_pdf_raises:
  "load_pdf env pdf_path x = (Inr pages, x1) \<Longrightarrow>
   check_text env (join [32] pages) x1 = (Inl e, errs, x') \<Longrightarrow>
   ending (process_pdf env pdf_path fs x) = Failed (py ''Error processing PDF: '' @ exn_str e)"
  by (simp add: process_pdf_def Let_def)

lemma process_pdf_finishes:
  "load_pdf env pdf_path x = (Inr pages, x1) \<Longrightarrow>
   check_text env (join [32] pages) x1 = (Inr out, errs, x') \<Longrightarrow>
   ending (process_pdf env pdf_path fs x) = Finished out"
  by (simp add: process_pdf_def Let_def)

text \<open>
  However the \<^verbatim>\<open>try\<close> statement of a run is left, the temporary file does not exist
  afterwards and no other file is touched: when the block finishes, when
  \<^verbatim>\<open>PyPDFLoader\<close> raises, and when the pipeline raises. A run that saved the upload
  ends without its temporary file.
\<close>

theorem temp_file_deleted:
  "pdf_path \<notin> files (process_pdf env pdf_path fs x) \<and>
   files (process_pdf env pdf_path fs x) = fs - {pdf_path} \<and>
   (load_pdf env pdf_path x = (Inl e, x') \<longrightarrow>
      ending (process_pdf env pdf_path fs x) = Failed (py ''Error processing PDF: '' @ exn_str e) \<and>
      pdf_path \<notin> files (process_pdf env pdf_path fs x)) \<and>
   (load_pdf env pdf_path x = (Inr pages, x1) \<and>
    check_text env (join [32] pages) x1 = (Inl e, errs, x') \<longrightarrow>
      ending (process_pdf env pdf_path fs x) = Failed (py ''Error processing PDF: '' @ exn_str e) \<and>
      pdf_path \<notin> files (process_pdf env pdf_path fs x)) \<and>
   (load_pdf env pdf_path x = (Inr pages, x1) \<and>
    check_text env (join [32] pages) x1 = (Inr out, errs, x') \<longrightarrow>
      ending (process_pdf env pdf_path fs x) = Finished out \<and>
      pdf_path \<notin> files (process_pdf env pdf_path fs x)) \<and>
   (make_temp env x0 = (pdf_path, xa) \<and> write_upload env pdf_path xa = (None, x) \<longrightarrow>
      pdf_path \<notin> files (run_upload env fs x0) \<and>
      files (run_upload env fs x0) = fs - {pdf_path})"
  using process_pdf_unreadable[of env pdf_path x e x' fs]
    process_pdf_raises[of env pdf_path x pages x1 e errs x' fs]
    process_pdf_finishes[of env pdf_path x pages x1 out errs x' fs]
  by (auto simp: process_pdf_files run_upload_def)

lemma extract_no_status:
  "extract_claims env_no_status t () = (([PyStr (py ''Revenue grew 40% in 2023'')], []), ())"
  by (simp add: extract_claims_def extract_claims_try_def env_no_status_def stub_env_def
      parse_reply_def parse_response_def clean_doc_one_claim loads_doc_one_claim claims_of_def)

lemma check_text_no_status:
  "check_text env_no_status t () = (Inl (KeyError (py ''status'')), [], ())"
  by (simp add: check_text_def extract_no_status verify_no_status summary_counts_def)
    (simp add: py_def)

lemma check_text_revenue:
  "check_text env_revenue t () =
     (Inr (Checked
        [PyDict [(py ''status'', PyStr (py ''Verified'')), (py ''explanation'', PyStr (py ''x'')),
                 (py ''sources'', PyList []),
                 (py ''claim'', PyStr (py ''Revenue grew 40% in 2023''))]] 1 0 0), [], ())"
proof -
  have e: "extract_claims env_revenue t () = (([PyStr (py ''Revenue grew 40% in 2023'')], []), ())"
    by (simp add: extract_claims_def extract_claims_try_def env_revenue_def stub_env_def
        parse_reply_def parse_response_def clean_doc_one_claim loads_doc_one_claim claims_of_def)
  have s: "show_results env_revenue r () = (None, ())" for r
    by (simp add: env_revenue_def stub_env_def)
  show ?thesis
    by (simp add: check_text_def e verify_revenue summary_counts_def s) (simp add: py_def)
qed

theorem temp_file_deleted_witness:
  "load_pdf env_bad_pdf (py ''/tmp/tmpk3v9.pdf'') () = (Inl (Raised (py ''EOF marker not found'')), ()) \<and>
   ending (process_pdf env_bad_pdf (py ''/tmp/tmpk3v9.pdf'') {py ''/tmp/tmpk3v9.pdf''} ()) =
     Failed (py ''Error processing PDF: EOF marker not found'') \<and>
   py ''/tmp/tmpk3v9.pdf'' \<notin>
     files (process_pdf env_bad_pdf (py ''/tmp/tmpk3v9.pdf'') {py ''/tmp/tmpk3v9.pdf''} ()) \<and>
   load_pdf env_no_status (py ''/tmp/tmpk3v9.pdf'') () = (Inr [py ''Revenue grew 40% in 2023''], ()) \<and>
   check_text env_no_status (join [32] [py ''Revenue grew 40% in 2023'']) () =
     (Inl (KeyError (py ''status'')), [], ()) \<and>
   ending (process_pdf env_no_status (py ''/tmp/tmpk3v9.pdf'') {py ''/tmp/tmpk3v9.pdf''} ()) =
     Failed (py ''Error processing PDF: '' @ quoted (py ''status'')) \<and>
   py ''/tmp/tmpk3v9.pdf'' \<notin>
     files (process_pdf env_no_status (py ''/tmp/tmpk3v9.pdf'') {py ''/tmp/tmpk3v9.pdf''} ()) \<and>
   load_pdf env_revenue (py ''/tmp/tmpk3v9.pdf'') () = (Inr [py ''Revenue grew 40% in 2023''], ()) \<and>
   ending (process_pdf env_revenue (py ''/tmp/tmpk3v9.pdf'') {py ''/tmp/tmpk3v9.pdf''} ()) =
     Finished (Checked
        [PyDict [(py ''status'', PyStr (py ''Verified'')), (py ''explanation'', PyStr (py ''x'')),
                 (py ''sources'', PyList []),
                 (py ''claim'', PyStr (py ''Revenue grew 40% in 2023''))]] 1 0 0) \<and>
   py ''/tmp/tmpk3v9.pdf'' \<notin>
     files (process_pdf env_revenue (py ''/tmp/tmpk3v9.pdf'') {py ''/tmp/tmpk3v9.pdf''} ()) \<and>
   make_temp env_revenue () = (py ''/tmp/tmpk3v9.pdf'', ()) \<and>
   write_upload env_revenue (py ''/tmp/tmpk3v9.pdf'') () = (None, ()) \<and>
   py ''/tmp/tmpk3v9.pdf'' \<notin> files (run_upload env_revenue {py ''/tmp/notes.txt''} ()) \<and>
   files (run_upload env_revenue {py ''/tmp/notes.txt''} ()) = {py ''/tmp/notes.txt''}"
proof -
  let ?p = "py ''/tmp/tmpk3v9.pdf''"
  let ?page = "py ''Revenue grew 40% in 2023''"
  let ?v = "PyDict [(py ''status'', PyStr (py ''Verified'')), (py ''explanation'', PyStr (py ''x'')),
                    (py ''sources'', PyList []), (py ''claim'', PyStr ?page)]"
  have l1: "load_pdf env_bad_pdf ?p () = (Inl (Raised (py ''EOF marker not found'')), ())"
    by (simp add: env_bad_pdf_def)
  have l2: "load_pdf env_no_status ?p () = (Inr [?page], ())"
    by (simp add: env_no_status_def stub_env_def)
  have k2: "check_text env_no_status (join [32] [?page]) () = (Inl (KeyError (py ''status'')), [], ())"
    by (rule check_text_no_status)
  have l3: "load_pdf env_revenue ?p () = (Inr [?page], ())"
    by (simp add: env_revenue_def stub_env_def)
  have k3: "check_text env_revenue (join [32] [?page]) () = (Inr (Checked [?v] 1 0 0), [], ())"
    by (rule check_text_revenue)
  have m4: "make_temp env_revenue () = (?p, ())"
    by (simp add: env_revenue_def stub_env_def)
  have w4: "write_upload env_revenue ?p () = (None, ())"
    by (simp add: env_revenue_def stub_env_def)
  have d: "py ''/tmp/notes.txt'' \<noteq> ?p" by (simp add: py_def)
  have m: "py ''Error processing PDF: '' @ exn_str (Raised (py ''EOF marker not found'')) =
           py ''Error processing PDF: EOF marker not found''"
    by (simp add: py_def)
  have q: "exn_str (KeyError (py ''status'')) = quoted (py ''status'')"
    by (simp add: quoted_def)
  note t1 = temp_file_deleted[where env = env_bad_pdf and pdf_path = ?p and fs = "{?p}"
      and x = "()" and e = "Raised (py ''EOF marker not found'')" and x' = "()"]
  note t2 = temp_file_deleted[where env = env_no_status and pdf_path = ?p and fs = "{?p}"
      and x = "()" and e = "KeyError (py ''status'')" and x' = "()" and pages = "[?page]"
      and ?x1.0 = "()" and errs = "[]"]
  note t3 = temp_file_deleted[where env = env_revenue and pdf_path = ?p and fs = "{?p}"
      and x = "()" and x' = "()" and pages = "[?page]" and ?x1.0 = "()" and errs = "[]"
      and out = "Checked [?v] 1 0 0"]
  note t4 = temp_file_deleted[where env = env_revenue and pdf_path = ?p
      and fs = "{py ''/tmp/notes.txt''}" and ?x0.0 = "()" and xa = "()" and x = "()"]
  from t1 l1 m have r1: "ending (process_pdf env_bad_pdf ?p {?p} ()) =
      Failed (py ''Error processing PDF: EOF marker not found'')"
    "?p \<notin> files (process_pdf env_bad_pdf ?p {?p} ())" by simp_all
  from t2 l2 k2 q have r2: "ending (process_pdf env_no_status ?p {?p} ()) =
      Failed (py ''Error processing PDF: '' @ quoted (py ''status''))"
    "?p \<notin> files (process_pdf env_no_status ?p {?p} ())" by simp_all
  from t3 l3 k3 have r3: "ending (process_pdf env_revenue ?p {?p} ()) = Finished (Checked [?v] 1 0 0)"
    "?p \<notin> files (process_pdf env_revenue ?p {?p} ())" by simp_all
  from t4 m4 w4 d have r4: "?p \<notin> files (run_upload env_revenue {py ''/tmp/notes.txt''} ())"
    "files (run_upload env_revenue {py ''/tmp/notes.txt''} ()) = {py ''/tmp/notes.txt''}"
    by auto
  show ?thesis using l1 r1 l2 k2 r2 l3 r3 m4 w4 r4 by simp
qed

lemma run_upload_save_fails:
  "make_temp env x = (pdf_path, x1) \<Longrightarrow> write_upload env pdf_path x1 = (Some e, x2) \<Longrightarrow>
   ending (run_upload env fs x) = Aborted e \<and> pdf_path \<in> files (run_upload env fs x)"
  by (simp add: run_upload_def)

text \<open>
  C9: the temporary file is to be deleted on every way out of a run. The \<^verbatim>\<open>finally\<close>
  branch does so for the \<^verbatim>\<open>try\<close> statement; the file is created and written
  before that statement, in the \<^verbatim>\<open>with\<close> block of lines 140 to 142, and it is
  kept when it is closed. In the run where the writing raises, the script is left by
  this exception and the temporary file is still there.
\<close>

theorem temp_file_left_when_save_fails:
  "make_temp env_disk_full () = (py ''/tmp/tmpk3v9.pdf'', ()) \<and>
   write_upload env_disk_full (py ''/tmp/tmpk3v9.pdf'') () =
     (Some (Raised (py ''[Errno 28] No space left on device'')), ()) \<and>
   ending (run_upload env_disk_full {} ()) =
     Aborted (Raised (py ''[Errno 28] No space left on device'')) \<and>
   files (run_upload env_disk_full {} ()) = {py ''/tmp/tmpk3v9.pdf''}"
  by (simp add: run_upload_def env_disk_full_def env_revenue_def stub_env_def)

section \<open>A reply without status ends the run\<close>

text \<open>
  C5: a reply that parses as JSON and misses a required field is to give the failure
  verdict. For the reply \<^verbatim>\<open>{"explanation": "x"}\<close> the \<^verbatim>\<open>try\<close> body raises nothing:
  \<open>verify_claim\<close> returns the object with the claim added, which has no status. Line
  179 then raises \<^verbatim>\<open>KeyError\<close>, the \<^verbatim>\<open>except\<close> branch of line 213 catches it, and
  the run ends with an error message and no verdict.
\<close>

theorem missing_status_aborts_run:
  "chat_verify env_no_status (PyStr (py ''Revenue grew 40% in 2023'')) [] () =
     (Inr (Some doc_no_status), ()) \<and>
   parse_reply (json_loads env_no_status) (Some doc_no_status) =
     Inr (PyDict [(py ''explanation'', PyStr (py ''x''))]) \<and>
   fst (verify_claim env_no_status (PyStr (py ''Revenue grew 40% in 2023'')) ()) =
     PyDict [(py ''explanation'', PyStr (py ''x'')),
             (py ''claim'', PyStr (py ''Revenue grew 40% in 2023''))] \<and>
   getitem (fst (verify_claim env_no_status (PyStr (py ''Revenue grew 40% in 2023'')) ()))
     (py ''status'') = Inl (KeyError (py ''status'')) \<and>
   fst (extract_claims env_no_status (py ''Some text'') ()) =
     ([PyStr (py ''Revenue grew 40% in 2023'')], []) \<and>
   fst (check_text env_no_status (py ''Some text'') ()) = Inl (KeyError (py ''status'')) \<and>
   ending (process_pdf env_no_status (py ''/tmp/tmpk3v9.pdf'') {py ''/tmp/tmpk3v9.pdf''} ()) =
     Failed (py ''Error processing PDF: '' @ quoted (py ''status''))"
proof -
  have c: "chat_verify env_no_status (PyStr (py ''Revenue grew 40% in 2023'')) [] () =
           (Inr (Some doc_no_status), ())"
    by (simp add: env_no_status_def stub_env_def)
  have p: "parse_reply (json_loads env_no_status) (Some doc_no_status) =
           Inr (PyDict [(py ''explanation'', PyStr (py ''x''))])"
    by (simp add: parse_reply_def parse_response_def clean_doc_no_status env_no_status_def
        stub_env_def loads_doc_no_status)
  have g: "getitem (PyDict [(py ''explanation'', PyStr (py ''x'')),
             (py ''claim'', PyStr (py ''Revenue grew 40% in 2023''))]) (py ''status'') =
           Inl (KeyError (py ''status''))"
    by (simp add: py_def)
  have l: "load_pdf env_no_status (py ''/tmp/tmpk3v9.pdf'') () =
           (Inr [py ''Revenue grew 40% in 2023''], ())"
    by (simp add: env_no_status_def stub_env_def)
  have e: "ending (process_pdf env_no_status (py ''/tmp/tmpk3v9.pdf'') {py ''/tmp/tmpk3v9.pdf''} ()) =
           Failed (py ''Error processing PDF: '' @ quoted (py ''status''))"
    using process_pdf_raises[OF l check_text_no_status] by (simp add: quoted_def)
  show ?thesis
    using c p g e by (simp add: verify_no_status extract_no_status check_text_no_status)
qed

end
